theory Spec2Isabelle
  imports Main "HOL-Library.Word"
begin

section \<open>Python strings\<close>

text \<open>
  Text is modelled as \<open>string\<close>: a list of characters whose code points lie below 256.
  The functions below are the \<open>str\<close> methods the services call, with the behaviour of
  CPython on such text. The tests for a prefix, a suffix and a substring are written for
  lists of any kind: they are also applied to the code points that \<open>str.upper\<close> returns.
\<close>

definition newline :: char where
  "newline = CHR 0x0A"

text \<open>\<open>str.isspace\<close> on one character: the white space code points below 256.\<close>

definition isspace :: "char \<Rightarrow> bool" where
  "isspace c = (of_char c \<in> {9, 10, 11, 12, 13, 28, 29, 30, 31, 32, 133, 160 :: nat})"

text \<open>\<open>s.strip()\<close>, \<open>s.startswith(p)\<close>, \<open>s.endswith(p)\<close>, \<open>p in s\<close>.\<close>

definition strip :: "string \<Rightarrow> string" where
  "strip s = rev (dropWhile isspace (rev (dropWhile isspace s)))"

definition startswith :: "'a list \<Rightarrow> 'a list \<Rightarrow> bool" where
  "startswith s p = (take (length p) s = p)"

definition endswith :: "'a list \<Rightarrow> 'a list \<Rightarrow> bool" where
  "endswith s p = startswith (rev s) (rev p)"

fun contains :: "'a list \<Rightarrow> 'a list \<Rightarrow> bool" where
  "contains p [] = (p = [])"
| "contains p (c # cs) = (startswith (c # cs) p \<or> contains p cs)"

text \<open>\<open>s.split(sep)\<close> for a one-character separator: never empty, \<open>''''\<close> gives \<open>['''']\<close>.\<close>

fun split_on :: "char \<Rightarrow> string \<Rightarrow> string list" where
  "split_on sep [] = [[]]"
| "split_on sep (c # cs) =
     (if c = sep then [] # split_on sep cs
      else (case split_on sep cs of [] \<Rightarrow> [[c]] | l # ls \<Rightarrow> (c # l) # ls))"

text \<open>\<open>sep.join(parts)\<close>.\<close>

fun join :: "string \<Rightarrow> string list \<Rightarrow> string" where
  "join sep [] = []"
| "join sep [x] = x"
| "join sep (x # y # ys) = x @ sep @ join sep (y # ys)"

text \<open>\<open>line.count("$$")\<close>: occurrences counted from the left without overlap.\<close>

fun count_dollar2 :: "string \<Rightarrow> nat" where
  "count_dollar2 (a # b # cs) =
     (if a = CHR ''$'' \<and> b = CHR ''$'' then Suc (count_dollar2 cs) else count_dollar2 (b # cs))"
| "count_dollar2 cs = 0"

section \<open>Statement splitter: \<open>SqlExecutor._split_queries\<close>\<close>

text \<open>
  The loop state is the triple of the local variables \<open>queries\<close>, \<open>current\<close> and
  \<open>in_dollar\<close>. \<open>close_query\<close> is the block that joins the buffer, trims it and keeps it
  unless every line of it is blank or a comment; the source has it twice, at a terminator
  and after the last line.
\<close>

type_synonym split_state = "string list \<times> string list \<times> bool"

definition comment_or_blank :: "string \<Rightarrow> bool" where
  "comment_or_blank l = (startswith (strip l) ''--'' \<or> strip l = [])"

definition close_query :: "string list \<Rightarrow> string list \<Rightarrow> string list" where
  "close_query queries current =
     (let query = strip (join [newline] current)
      in if query \<noteq> [] \<and> \<not> list_all comment_or_blank (split_on newline query)
         then queries @ [query] else queries)"

definition toggle_dollar :: "bool \<Rightarrow> string \<Rightarrow> bool" where
  "toggle_dollar in_dollar line =
     (if contains ''$$'' line
      then (if count_dollar2 line mod 2 = 1 then \<not> in_dollar else in_dollar)
      else in_dollar)"

definition split_step :: "split_state \<Rightarrow> string \<Rightarrow> split_state" where
  "split_step st line =
     (case st of (queries, current, in_dollar) \<Rightarrow>
        let stripped = strip line in
        if startswith stripped ''--'' \<or> stripped = [] then (queries, current @ [line], in_dollar)
        else
          let in_dollar' = toggle_dollar in_dollar line in
          if in_dollar' then (queries, current @ [line], in_dollar')
          else if endswith stripped '';''
               then (close_query queries (current @ [line]), [], in_dollar')
               else (queries, current @ [line], in_dollar'))"

definition split_queries :: "string \<Rightarrow> string list" where
  "split_queries sql =
     (case foldl split_step ([], [], False) (split_on newline sql) of
        (queries, current, in_dollar) \<Rightarrow>
          if current \<noteq> [] then close_query queries current else queries)"

definition plpgsql_example :: string where
  "plpgsql_example =
     ''CREATE FUNCTION f() RETURNS int AS $$\<newline> BEGIN RETURN 1; END;\<newline>$$ LANGUAGE plpgsql;''"

section \<open>File reader: \<open>SqlExecutor._read_file\<close>\<close>

text \<open>
  Exceptions are values. \<open>OSError\<close> is what \<open>open\<close> and \<open>read\<close> raise when the operating
  system refuses (its argument is the message); \<open>EncodingUndetermined\<close> is the
  \<open>IOError\<close> raised after the loop over the encodings (its argument is the path). Python 3
  has \<open>IOError = OSError\<close>, so \<open>except IOError\<close> catches both. \<open>DatabaseError\<close> is any
  exception raised by the connection; it is not an \<open>IOError\<close>.
\<close>

datatype py_exception = OSError string | EncodingUndetermined string | DatabaseError string

fun is_IOError :: "py_exception \<Rightarrow> bool" where
  "is_IOError (OSError m) = True"
| "is_IOError (EncodingUndetermined p) = True"
| "is_IOError (DatabaseError m) = False"

type_synonym byte = "8 word"

text \<open>
  What the program cannot decide itself is a parameter: the bytes of each file (or the
  message of the \<open>OSError\<close> for a path that cannot be read), the \<open>utf-8\<close> and \<open>cp949\<close>
  codecs (\<open>None\<close> is \<open>UnicodeDecodeError\<close>), and how the database answers each call of the
  connection, given the calls made so far (\<open>Some m\<close>: the call raises with message \<open>m\<close>).
  Assigning to the \<open>autocommit\<close> attribute is such a call: the setter of the driver can
  refuse.
\<close>

datatype db_event =
    Executed string | ExecuteFailed string
  | Committed | CommitFailed
  | RolledBack | RollbackFailed

record world =
  file_bytes :: "string \<Rightarrow> string + byte list"
  decode_utf8 :: "byte list \<Rightarrow> string option"
  decode_cp949 :: "byte list \<Rightarrow> string option"
  execute_raises :: "db_event list \<Rightarrow> string \<Rightarrow> string option"
  commit_raises :: "db_event list \<Rightarrow> string option"
  rollback_raises :: "db_event list \<Rightarrow> string option"
  autocommit_raises :: "db_event list \<Rightarrow> string option"

text \<open>
  The setter of \<open>psycopg2\<close> raises \<open>ProgrammingError\<close> while a transaction is open on the
  connection. With autocommit off, the first statement opens a transaction, whether it
  succeeds or not; \<open>commit\<close> closes it even when it raises, and \<open>rollback\<close> closes it when
  it succeeds.
\<close>

fun transaction_step :: "bool \<Rightarrow> db_event \<Rightarrow> bool" where
  "transaction_step is_open (Executed q) = True"
| "transaction_step is_open (ExecuteFailed q) = True"
| "transaction_step is_open Committed = False"
| "transaction_step is_open CommitFailed = False"
| "transaction_step is_open RolledBack = False"
| "transaction_step is_open RollbackFailed = is_open"

definition transaction_open :: "db_event list \<Rightarrow> bool" where
  "transaction_open h = foldl transaction_step False h"

definition psycopg2_autocommit :: "db_event list \<Rightarrow> string option" where
  "psycopg2_autocommit h =
     (if transaction_open h then Some ''set_session cannot be used inside a transaction''
      else None)"

text \<open>\<open>latin-1\<close> maps every byte to the character with the same code point.\<close>

definition decode_latin1 :: "byte list \<Rightarrow> string option" where
  "decode_latin1 bs = Some (map (\<lambda>b. char_of (unat b)) bs)"

text \<open>Text mode with the default \<open>newline=None\<close>: \<open>\r\n\<close> and \<open>\r\<close> are read as \<open>\n\<close>.\<close>

fun universal_newlines :: "string \<Rightarrow> string" where
  "universal_newlines (a # b # cs) =
     (if a = CHR 0x0D \<and> b = CHR 0x0A then CHR 0x0A # universal_newlines cs
      else if a = CHR 0x0D then CHR 0x0A # universal_newlines (b # cs)
      else a # universal_newlines (b # cs))"
| "universal_newlines [a] = (if a = CHR 0x0D then [CHR 0x0A] else [a])"
| "universal_newlines [] = []"

text \<open>
  The loop \<open>for encoding in ("utf-8", "cp949", "latin-1")\<close>: each round opens the file and
  reads it whole; a \<open>UnicodeDecodeError\<close> goes to the next encoding, an \<open>OSError\<close> escapes,
  and when the encodings are used up the function raises.
\<close>

fun read_file_loop ::
  "world \<Rightarrow> string \<Rightarrow> (byte list \<Rightarrow> string option) list \<Rightarrow> py_exception + string" where
  "read_file_loop w file_path [] = Inl (EncodingUndetermined file_path)"
| "read_file_loop w file_path (decode # encodings) =
     (case file_bytes w file_path of
        Inl m \<Rightarrow> Inl (OSError m)
      | Inr bs \<Rightarrow>
          (case decode bs of
             Some text \<Rightarrow> Inr (universal_newlines text)
           | None \<Rightarrow> read_file_loop w file_path encodings))"

definition read_file :: "world \<Rightarrow> string \<Rightarrow> py_exception + string" where
  "read_file w file_path =
     read_file_loop w file_path [decode_utf8 w, decode_cp949 w, decode_latin1]"

section \<open>Execution engine: \<open>SqlExecutor.execute_files\<close>\<close>

text \<open>
  \<open>ExecutionResult\<close> without \<open>elapsed_sec\<close> (wall-clock time). The connection is its
  \<open>autocommit\<close> attribute and the calls made on it so far. Calls of the logging sink are
  left out: they change neither the connection nor the result.
\<close>

record ExecutionResult =
  total_files :: int
  success_files :: int
  failed_files :: int
  total_queries :: int
  success_count :: int
  error_count :: int

definition new_result :: ExecutionResult where
  "new_result = \<lparr>total_files = 0, success_files = 0, failed_files = 0,
                  total_queries = 0, success_count = 0, error_count = 0\<rparr>"

record connection =
  autocommit :: bool
  history :: "db_event list"

definition record_event :: "db_event \<Rightarrow> connection \<Rightarrow> connection" where
  "record_event ev c = c\<lparr>history := history c @ [ev]\<rparr>"

text \<open>
  \<open>self._conn.autocommit = value\<close>: the attribute changes unless the setter raises. The
  exception is one of the connection, not an \<open>IOError\<close>.
\<close>

definition set_autocommit :: "world \<Rightarrow> bool \<Rightarrow> connection \<Rightarrow> py_exception + connection" where
  "set_autocommit w value c =
     (case autocommit_raises w (history c) of
        Some m \<Rightarrow> Inl (DatabaseError m)
      | None \<Rightarrow> Inr (c\<lparr>autocommit := value\<rparr>))"

text \<open>
  How a block of statements ends: it ran to its end, it left early (\<open>return\<close> in
  single-transaction mode, \<open>break\<close> in per-file mode), or an exception escaped it.
\<close>

datatype outcome = Completed | Stopped | Raised py_exception

subsection \<open>Single-transaction mode\<close>

text \<open>The \<open>for i, query in enumerate(queries, 1)\<close> loop of \<open>_execute_single_transaction\<close>.\<close>

fun single_queries ::
  "world \<Rightarrow> string list \<Rightarrow> connection \<times> ExecutionResult
     \<Rightarrow> outcome \<times> connection \<times> ExecutionResult" where
  "single_queries w [] (c, r) = (Completed, c, r)"
| "single_queries w (query # queries) (c, r) =
     (case execute_raises w (history c) query of
        None \<Rightarrow>
          single_queries w queries
            (record_event (Executed query) c, r\<lparr>success_count := success_count r + 1\<rparr>)
      | Some m \<Rightarrow>
          (let c1 = record_event (ExecuteFailed query) c;
               r1 = r\<lparr>error_count := error_count r + 1, failed_files := failed_files r + 1\<rparr>
           in case rollback_raises w (history c1) of
                Some m' \<Rightarrow> (Raised (DatabaseError m'), record_event RollbackFailed c1, r1)
              | None \<Rightarrow>
                  (Stopped, record_event RolledBack c1,
                   r1\<lparr>failed_files := total_files r1 - success_files r1\<rparr>)))"

text \<open>The \<open>for file_path in file_paths\<close> loop, with its \<open>except IOError\<close> branch.\<close>

fun single_files ::
  "world \<Rightarrow> string list \<Rightarrow> connection \<times> ExecutionResult
     \<Rightarrow> outcome \<times> connection \<times> ExecutionResult" where
  "single_files w [] (c, r) = (Completed, c, r)"
| "single_files w (file_path # file_paths) (c, r) =
     (case read_file w file_path of
        Inl e \<Rightarrow>
          (if is_IOError e
           then (let r1 = r\<lparr>failed_files := failed_files r + 1\<rparr>
                 in case rollback_raises w (history c) of
                      Some m' \<Rightarrow> (Raised (DatabaseError m'), record_event RollbackFailed c, r1)
                    | None \<Rightarrow> (Stopped, record_event RolledBack c, r1))
           else (Raised e, c, r))
      | Inr sql \<Rightarrow>
          (let queries = split_queries sql;
               r1 = r\<lparr>total_queries := total_queries r + int (length queries)\<rparr>
           in case single_queries w queries (c, r1) of
                (Completed, c2, r2) \<Rightarrow>
                  single_files w file_paths (c2, r2\<lparr>success_files := success_files r2 + 1\<rparr>)
              | (Stopped, c2, r2) \<Rightarrow> (Stopped, c2, r2)
              | (Raised e, c2, r2) \<Rightarrow> (Raised e, c2, r2)))"

text \<open>
  The \<open>try\<close> block of \<open>_execute_single_transaction\<close>: the assignment
  \<open>self._conn.autocommit = False\<close>, the loop over the files, and the commit after it. The
  first component is the exception that leaves the block, if any.
\<close>

definition single_transaction_try ::
  "world \<Rightarrow> string list \<Rightarrow> connection \<times> ExecutionResult
     \<Rightarrow> py_exception option \<times> connection \<times> ExecutionResult" where
  "single_transaction_try w file_paths cr =
     (case cr of (c, r) \<Rightarrow>
        case set_autocommit w False c of
          Inl e \<Rightarrow> (Some e, c, r)
        | Inr c0 \<Rightarrow>
            (case single_files w file_paths (c0, r) of
               (Completed, c1, r1) \<Rightarrow>
                 (case commit_raises w (history c1) of
                    None \<Rightarrow> (None, record_event Committed c1, r1)
                  | Some m \<Rightarrow> (Some (DatabaseError m), record_event CommitFailed c1, r1))
             | (Stopped, c1, r1) \<Rightarrow> (None, c1, r1)
             | (Raised e, c1, r1) \<Rightarrow> (Some e, c1, r1)))"

text \<open>
  \<open>_execute_single_transaction\<close>: the \<open>finally\<close> clause assigns \<open>prev_autocommit\<close> back on
  every way out of the \<open>try\<close> block; an exception raised by that assignment is the one
  that escapes. The first component is the exception that escapes, if any.
\<close>

definition execute_single_transaction ::
  "world \<Rightarrow> string list \<Rightarrow> connection \<times> ExecutionResult
     \<Rightarrow> py_exception option \<times> connection \<times> ExecutionResult" where
  "execute_single_transaction w file_paths cr =
     (case cr of (c, r) \<Rightarrow>
        let prev_autocommit = autocommit c in
        case single_transaction_try w file_paths (c, r) of
          (exc, c1, r1) \<Rightarrow>
            (case set_autocommit w prev_autocommit c1 of
               Inl e \<Rightarrow> (Some e, c1, r1)
             | Inr c2 \<Rightarrow> (exc, c2, r1)))"

subsection \<open>Per-file mode\<close>

text \<open>
  The statement loop of \<open>_execute_per_file\<close>; \<open>Stopped\<close> is the \<open>break\<close> taken with
  \<open>file_error = True\<close>.
\<close>

fun per_file_queries ::
  "world \<Rightarrow> string list \<Rightarrow> connection \<times> ExecutionResult
     \<Rightarrow> outcome \<times> connection \<times> ExecutionResult" where
  "per_file_queries w [] (c, r) = (Completed, c, r)"
| "per_file_queries w (query # queries) (c, r) =
     (case execute_raises w (history c) query of
        None \<Rightarrow>
          per_file_queries w queries
            (record_event (Executed query) c, r\<lparr>success_count := success_count r + 1\<rparr>)
      | Some m \<Rightarrow>
          (let c1 = record_event (ExecuteFailed query) c;
               r1 = r\<lparr>error_count := error_count r + 1\<rparr>
           in case rollback_raises w (history c1) of
                Some m' \<Rightarrow> (Raised (DatabaseError m'), record_event RollbackFailed c1, r1)
              | None \<Rightarrow> (Stopped, record_event RolledBack c1, r1)))"

text \<open>
  The body of the loop over the files, for one file. The \<open>except IOError\<close> clause catches
  what \<open>_read_file\<close> raises; an exception of the connection, also the one of the
  assignment \<open>self._conn.autocommit = False\<close>, passes it.
\<close>

definition per_file_body ::
  "world \<Rightarrow> string \<Rightarrow> connection \<times> ExecutionResult
     \<Rightarrow> outcome \<times> connection \<times> ExecutionResult" where
  "per_file_body w file_path cr =
     (case cr of (c, r) \<Rightarrow>
        case read_file w file_path of
          Inl e \<Rightarrow>
            (if is_IOError e then (Completed, c, r\<lparr>failed_files := failed_files r + 1\<rparr>)
             else (Raised e, c, r))
        | Inr sql \<Rightarrow>
            (let queries = split_queries sql;
                 r1 = r\<lparr>total_queries := total_queries r + int (length queries)\<rparr>
             in case set_autocommit w False c of
                  Inl e \<Rightarrow> (Raised e, c, r1)
                | Inr c1 \<Rightarrow>
                    (case per_file_queries w queries (c1, r1) of
                       (Completed, c2, r2) \<Rightarrow>
                         (case commit_raises w (history c2) of
                            None \<Rightarrow>
                              (Completed, record_event Committed c2,
                               r2\<lparr>success_files := success_files r2 + 1\<rparr>)
                          | Some m \<Rightarrow>
                              (Raised (DatabaseError m), record_event CommitFailed c2, r2))
                     | (Stopped, c2, r2) \<Rightarrow>
                         (Completed, c2, r2\<lparr>failed_files := failed_files r2 + 1\<rparr>)
                     | (Raised e, c2, r2) \<Rightarrow> (Raised e, c2, r2))))"

fun per_file_loop ::
  "world \<Rightarrow> string list \<Rightarrow> connection \<times> ExecutionResult
     \<Rightarrow> outcome \<times> connection \<times> ExecutionResult" where
  "per_file_loop w [] (c, r) = (Completed, c, r)"
| "per_file_loop w (file_path # file_paths) (c, r) =
     (case per_file_body w file_path (c, r) of
        (Raised e, c1, r1) \<Rightarrow> (Raised e, c1, r1)
      | (Completed, c1, r1) \<Rightarrow> per_file_loop w file_paths (c1, r1)
      | (Stopped, c1, r1) \<Rightarrow> per_file_loop w file_paths (c1, r1))"

text \<open>
  \<open>_execute_per_file\<close>: \<open>prev_autocommit\<close> is assigned back by the statement after the
  loop, which an escaping exception does not reach.
\<close>

definition execute_per_file ::
  "world \<Rightarrow> string list \<Rightarrow> connection \<times> ExecutionResult
     \<Rightarrow> py_exception option \<times> connection \<times> ExecutionResult" where
  "execute_per_file w file_paths cr =
     (case cr of (c, r) \<Rightarrow>
        let prev_autocommit = autocommit c in
        case per_file_loop w file_paths (c, r) of
          (Raised e, c1, r1) \<Rightarrow> (Some e, c1, r1)
        | (out, c1, r1) \<Rightarrow>
            (case set_autocommit w prev_autocommit c1 of
               Inl e \<Rightarrow> (Some e, c1, r1)
             | Inr c2 \<Rightarrow> (None, c2, r1)))"

subsection \<open>\<open>execute_files\<close>\<close>

text \<open>
  Returns the connection as the call leaves it, and either the exception that escaped or
  the result object.
\<close>

definition execute_files ::
  "world \<Rightarrow> connection \<Rightarrow> string list \<Rightarrow> bool \<Rightarrow> connection \<times> (py_exception + ExecutionResult)" where
  "execute_files w c file_paths single_transaction =
     (let result = new_result\<lparr>total_files := int (length file_paths)\<rparr>
      in case (if single_transaction
               then execute_single_transaction w file_paths (c, result)
               else execute_per_file w file_paths (c, result)) of
           (None, c1, r1) \<Rightarrow> (c1, Inr r1)
         | (Some e, c1, r1) \<Rightarrow> (c1, Inl e))"

section \<open>Verification engine: \<open>VerificationService.verify\<close>\<close>

text \<open>
  \<open>table_rows\<close> is a dictionary from table name to row count. Each catalog query of the
  service is a parameter: \<open>Inl m\<close> is an exception with message \<open>m\<close> raised by the cursor,
  \<open>Inr v\<close> the value the query returns.
\<close>

record VerificationResult =
  table_count :: int
  table_rows :: "string \<rightharpoonup> int"
  sequence_count :: int
  index_count :: int
  view_count :: int
  errors :: "string list"

definition new_verification :: VerificationResult where
  "new_verification = \<lparr>table_count = 0, table_rows = Map.empty, sequence_count = 0,
                        index_count = 0, view_count = 0, errors = []\<rparr>"

record verify_db =
  count_tables :: "string \<Rightarrow> string + int"
  list_tables :: "string \<Rightarrow> string + string list"
  count_rows :: "string \<Rightarrow> string \<Rightarrow> string + int"
  count_sequences :: "string \<Rightarrow> string + int"
  count_indexes :: "string \<Rightarrow> string + int"
  count_views :: "string \<Rightarrow> string + int"

text \<open>
  The \<open>for table in tables\<close> loop of \<open>_count_rows_per_table\<close>: its \<open>except Exception\<close>
  stores \<open>-1\<close> and goes on.
\<close>

fun count_rows_loop :: "verify_db \<Rightarrow> string \<Rightarrow> string list \<Rightarrow> (string \<rightharpoonup> int) \<Rightarrow> (string \<rightharpoonup> int)" where
  "count_rows_loop db schema [] rows = rows"
| "count_rows_loop db schema (table # tables) rows =
     (case count_rows db schema table of
        Inr count \<Rightarrow> count_rows_loop db schema tables (rows(table \<mapsto> count))
      | Inl m \<Rightarrow> count_rows_loop db schema tables (rows(table \<mapsto> - 1)))"

text \<open>The query that lists the tables is outside the inner \<open>try\<close>: its exception escapes.\<close>

definition count_rows_per_table :: "verify_db \<Rightarrow> string \<Rightarrow> string + (string \<rightharpoonup> int)" where
  "count_rows_per_table db schema =
     (case list_tables db schema of
        Inl m \<Rightarrow> Inl m
      | Inr tables \<Rightarrow> Inr (count_rows_loop db schema tables Map.empty))"

text \<open>
  The \<open>try\<close> block of \<open>verify\<close>: the result object as the block leaves it, and the message
  of the exception that ended it, if any.
\<close>

definition verify_try :: "verify_db \<Rightarrow> string \<Rightarrow> VerificationResult \<Rightarrow> string option \<times> VerificationResult" where
  "verify_try db schema result =
     (case count_tables db schema of
        Inl m \<Rightarrow> (Some m, result)
      | Inr n \<Rightarrow>
          (let r1 = result\<lparr>table_count := n\<rparr>
           in case count_rows_per_table db schema of
                Inl m \<Rightarrow> (Some m, r1)
              | Inr rows \<Rightarrow>
                  (let r2 = r1\<lparr>table_rows := rows\<rparr>
                   in case count_sequences db schema of
                        Inl m \<Rightarrow> (Some m, r2)
                      | Inr s \<Rightarrow>
                          (let r3 = r2\<lparr>sequence_count := s\<rparr>
                           in case count_indexes db schema of
                                Inl m \<Rightarrow> (Some m, r3)
                              | Inr i \<Rightarrow>
                                  (let r4 = r3\<lparr>index_count := i\<rparr>
                                   in case count_views db schema of
                                        Inl m \<Rightarrow> (Some m, r4)
                                      | Inr v \<Rightarrow> (None, r4\<lparr>view_count := v\<rparr>))))))"

text \<open>
  \<open>verify\<close>: \<open>except Exception as e\<close> appends \<open>str(e)\<close> to \<open>errors\<close>, and the function
  returns the result object on both paths.
\<close>

definition verify :: "verify_db \<Rightarrow> string \<Rightarrow> VerificationResult" where
  "verify db schema =
     (case verify_try db schema new_verification of
        (None, result) \<Rightarrow> result
      | (Some m, result) \<Rightarrow> result\<lparr>errors := errors result @ [m]\<rparr>)"

section \<open>Value formatter: \<open>SchemaDumper._format_value\<close>\<close>

text \<open>
  A cell value as \<open>psycopg2\<close> hands it over. The branches of \<open>_format_value\<close> test, in
  this order, for \<open>None\<close>, \<open>bool\<close>, \<open>int\<close> or \<open>float\<close>, \<open>bytes\<close> and \<open>list\<close>; every other
  value goes through \<open>str\<close> and carries its \<open>str\<close> text here.

  A float is not-a-number, an infinity with its sign, or a finite value. To print a
  finite float, CPython first finds the shortest string of decimal digits that reads back
  as the same float, and the position of the decimal point counted from the left end of
  these digits; that step is arithmetic on binary floating point and is not modelled: a
  finite float is given here by its sign, these digits (\<open>0\<close> alone for zero, no trailing
  zero otherwise) and that position. How the digits are laid out is modelled, in
  \<open>str_float\<close>.
\<close>

datatype py_float = FloatNan | FloatInf bool | FloatFinite bool string int

datatype py_value =
    PyNone
  | PyBool bool
  | PyInt int
  | PyFloat py_float
  | PyBytes "byte list"
  | PyList "py_value list"
  | PyOther string

definition digit_char :: "nat \<Rightarrow> char" where
  "digit_char d = ''0123456789abcdef'' ! d"

text \<open>\<open>str\<close> of an integer: decimal digits, with a minus sign below zero.\<close>

fun str_nat :: "nat \<Rightarrow> string" where
  "str_nat n = (if n < 10 then [digit_char n] else str_nat (n div 10) @ [digit_char (n mod 10)])"

declare str_nat.simps [simp del]

definition str_int :: "int \<Rightarrow> string" where
  "str_int i = (if i < 0 then ''-'' @ str_nat (nat (- i)) else str_nat (nat i))"

text \<open>
  \<open>str\<close> of a float, which is its \<open>repr\<close>. With the decimal point at position \<open>decpt\<close>, the
  value is printed with an exponent when \<open>decpt\<close> is at most \<open>-4\<close> or above 16: the first
  digit, a point and the other digits if there are any, \<open>e\<close>, the sign of the exponent and
  at least two digits of it. Otherwise it is printed positionally, with zeros added where
  the point lies outside the digits and \<open>.0\<close> added to a whole number.
\<close>

definition exponent_text :: "int \<Rightarrow> string" where
  "exponent_text e =
     (if e < 0 then ''-'' else ''+'')
     @ (let ds = str_nat (nat \<bar>e\<bar>) in if length ds < 2 then ''0'' @ ds else ds)"

fun str_float :: "py_float \<Rightarrow> string" where
  "str_float FloatNan = ''nan''"
| "str_float (FloatInf negative) = (if negative then ''-inf'' else ''inf'')"
| "str_float (FloatFinite negative digits decpt) =
     (if negative then ''-'' else '''')
     @ (if decpt \<le> - 4 \<or> 16 < decpt
        then take 1 digits @ (if 1 < length digits then ''.'' @ drop 1 digits else '''')
             @ ''e'' @ exponent_text (decpt - 1)
        else if decpt \<le> 0
        then ''0.'' @ replicate (nat (- decpt)) (CHR ''0'') @ digits
        else if int (length digits) \<le> decpt
        then digits @ replicate (nat decpt - length digits) (CHR ''0'') @ ''.0''
        else take (nat decpt) digits @ ''.'' @ drop (nat decpt) digits)"





text \<open>\<open>bytes.hex()\<close>: two lower-case hexadecimal digits for each byte.\<close>

definition hex_byte :: "byte \<Rightarrow> string" where
  "hex_byte b = [digit_char (unat b div 16), digit_char (unat b mod 16)]"

definition bytes_hex :: "byte list \<Rightarrow> string" where
  "bytes_hex bs = concat (map hex_byte bs)"

text \<open>\<open>text.replace("'", "''")\<close>; \<open>CHR 0x27\<close> is the single quote, \<open>CHR 0x5C\<close> the backslash.\<close>

definition replace_quote :: "string \<Rightarrow> string" where
  "replace_quote s = concat (map (\<lambda>c. if c = CHR 0x27 then [CHR 0x27, CHR 0x27] else [c]) s)"

text \<open>
  The \<open>bytes\<close> branch returns the f-string \<^verbatim>\<open>f"E'\\\\x{hex_str}'"\<close>: in a string literal
  that is not raw, the four backslashes of the source are two backslashes of the value.
\<close>

fun format_value :: "py_value \<Rightarrow> string" where
  "format_value PyNone = ''NULL''"
| "format_value (PyBool b) = (if b then ''TRUE'' else ''FALSE'')"
| "format_value (PyInt i) = str_int i"
| "format_value (PyFloat x) = str_float x"
| "format_value (PyBytes bs) =
     ''E'' @ [CHR 0x27, CHR 0x5C, CHR 0x5C] @ ''x'' @ bytes_hex bs @ [CHR 0x27]"
| "format_value (PyList vs) = ''ARRAY['' @ join '', '' (map format_value vs) @ '']''"
| "format_value (PyOther text) = [CHR 0x27] @ replace_quote text @ [CHR 0x27]"

section \<open>Schema dump: \<open>SchemaDumper\<close>\<close>

text \<open>
  The catalog is what the queries of the dumper return, as the \<open>fetchall\<close> rows in the
  order of each query's \<open>ORDER BY\<close>: a field per query, with the schema and table the query
  is parameterised by as arguments. \<open>now\<close> is the formatted current time of the header. A
  dump that is produced is one in which no query raises, so the queries are total here.
  Calls of the logging sink are left out.
\<close>

record column =
  col_name :: string
  col_type :: string
  col_not_null :: bool
  col_default :: "string option"

record catalog =
  now :: string
  pg_namespace :: "string list"
  pg_extension :: "string list"
  pg_enum :: "string \<Rightarrow> (string \<times> string list) list"
  pg_sequence :: "string \<Rightarrow> (string \<times> int \<times> int \<times> int \<times> int \<times> bool) list"
  pg_tables :: "string \<Rightarrow> string list"
  pg_attribute :: "string \<Rightarrow> string \<Rightarrow> column list"
  pg_primary_key :: "string \<Rightarrow> string \<Rightarrow> (string \<times> string list) option"
  pg_unique :: "string \<Rightarrow> string \<Rightarrow> (string \<times> string list) list"
  pg_check :: "string \<Rightarrow> string \<Rightarrow> (string \<times> string) list"
  pg_foreign_key :: "string \<Rightarrow> (string \<times> string \<times> string) list"
  pg_indexes :: "string \<Rightarrow> (string \<times> string \<times> string) list"
  pg_key_constraint_names :: "string \<Rightarrow> string list"
  pg_views :: "string \<Rightarrow> (string \<times> string) list"
  table_data :: "string \<Rightarrow> string \<Rightarrow> py_value list list"

text \<open>\<open>f'"{s}"'\<close>; \<open>CHR 0x22\<close> is the double quote.\<close>

definition dquote :: "string \<Rightarrow> string" where
  "dquote s = [CHR 0x22] @ s @ [CHR 0x22]"

definition section_rule :: string where
  "section_rule = ''-- ===========================================''"

definition section_header :: "string \<Rightarrow> string list" where
  "section_header title = [section_rule, ''-- '' @ title, section_rule, '''']"

text \<open>
  \<open>str.upper\<close> on text whose code points lie below 256. The result is a list of code
  points, because it can leave that range: the micro sign (181) becomes U+039C and
  \<open>y\<close> with diaeresis (255) becomes U+0178, and the sharp \<open>s\<close> (223) becomes the two
  letters \<open>SS\<close>. The letters \<open>a\<close> to \<open>z\<close> and the letters from 224 to 254, the division
  sign (247) apart, move down by 32; every other character is left as it is.
  \<open>code_points\<close> is a text as the list of its code points.
\<close>

definition code_points :: "string \<Rightarrow> nat list" where
  "code_points s = map of_char s"

definition upper_char :: "char \<Rightarrow> nat list" where
  "upper_char c =
     (let n = of_char c
      in if 97 \<le> n \<and> n \<le> 122 then [n - 32]
         else if n = 181 then [924]
         else if n = 223 then [83, 83]
         else if 224 \<le> n \<and> n \<le> 254 \<and> n \<noteq> 247 then [n - 32]
         else if n = 255 then [376]
         else [n])"

definition upper :: "string \<Rightarrow> nat list" where
  "upper s = concat (map upper_char s)"

subsection \<open>Extensions, enum types, sequences\<close>

definition dump_extensions :: "catalog \<Rightarrow> string list" where
  "dump_extensions cat =
     (let rows = pg_extension cat
      in if rows \<noteq> []
         then section_header ''EXTENSIONS''
              @ map (\<lambda>extname. ''CREATE EXTENSION IF NOT EXISTS '' @ dquote extname @ '';'') rows
              @ ['''']
         else [])"

definition dump_enums :: "catalog \<Rightarrow> string \<Rightarrow> string list" where
  "dump_enums cat schema =
     (let rows = pg_enum cat schema
      in if rows \<noteq> []
         then section_header ''ENUM TYPES''
              @ map (\<lambda>(typname, labels).
                       ''CREATE TYPE '' @ dquote schema @ ''.'' @ dquote typname @ '' AS ENUM (''
                       @ join '', '' (map (\<lambda>lbl. [CHR 0x27] @ lbl @ [CHR 0x27]) labels) @ '');'') rows
              @ ['''']
         else [])"

definition dump_sequences :: "catalog \<Rightarrow> string \<Rightarrow> string list \<Rightarrow> string list" where
  "dump_sequences cat schema tables =
     (let rows = pg_sequence cat schema
      in if rows \<noteq> []
         then section_header ''SEQUENCES''
              @ map (\<lambda>(seq_name, start_val, inc_val, min_val, max_val, is_cycle).
                       ''CREATE SEQUENCE IF NOT EXISTS '' @ dquote schema @ ''.'' @ dquote seq_name
                       @ '' START '' @ str_int start_val @ '' INCREMENT '' @ str_int inc_val
                       @ '' MINVALUE '' @ str_int min_val @ '' MAXVALUE '' @ str_int max_val
                       @ '' '' @ (if is_cycle then ''CYCLE'' else ''NO CYCLE'') @ '';'') rows
              @ ['''']
         else [])"

subsection \<open>Tables\<close>

definition format_column :: "column \<Rightarrow> string" where
  "format_column col =
     join '' ''
       ([dquote (col_name col), col_type col]
        @ (case col_default col of None \<Rightarrow> [] | Some d \<Rightarrow> [''DEFAULT '' @ d])
        @ (if col_not_null col then [''NOT NULL''] else []))"

text \<open>
  The loop body of \<open>_get_check_constraints\<close>: \<open>definition[6:].strip()\<close>, then
  \<open>definition[1:-1]\<close> when the text is parenthesised.
\<close>

definition check_definition :: "string \<Rightarrow> string" where
  "check_definition defn =
     (if startswith (upper defn) (code_points ''CHECK '')
      then (let d = strip (drop 6 defn)
            in if startswith d ''('' \<and> endswith d '')'' then butlast (tl d) else d)
      else defn)"

definition create_table_line :: "string \<Rightarrow> string \<Rightarrow> string" where
  "create_table_line schema table_name =
     ''CREATE TABLE IF NOT EXISTS '' @ dquote schema @ ''.'' @ dquote table_name @ '' (''"

definition dump_table :: "catalog \<Rightarrow> string \<Rightarrow> string \<Rightarrow> string list" where
  "dump_table cat schema table_name =
     (let columns = pg_attribute cat schema table_name;
          primary_key = pg_primary_key cat schema table_name;
          uniques = pg_unique cat schema table_name;
          checks = map (\<lambda>(name, defn). (name, check_definition defn)) (pg_check cat schema table_name);
          col_lines =
            map (\<lambda>col. ''    '' @ format_column col) columns
            @ (case primary_key of
                 None \<Rightarrow> []
               | Some (name, cols) \<Rightarrow>
                   [''    CONSTRAINT '' @ dquote name @ '' PRIMARY KEY (''
                    @ join '', '' (map dquote cols) @ '')''])
            @ map (\<lambda>(name, cols).
                     ''    CONSTRAINT '' @ dquote name @ '' UNIQUE (''
                     @ join '', '' (map dquote cols) @ '')'') uniques
            @ map (\<lambda>(name, defn).
                     ''    CONSTRAINT '' @ dquote name @ '' CHECK ('' @ defn @ '')'') checks
      in [''-- Table: '' @ schema @ ''.'' @ table_name,
          create_table_line schema table_name,
          join ('','' @ [newline]) col_lines,
          '');''])"

subsection \<open>Foreign keys\<close>

definition add_foreign_key_line :: "string \<Rightarrow> string \<times> string \<times> string \<Rightarrow> string" where
  "add_foreign_key_line schema row =
     (case row of (conname, table_name, defn) \<Rightarrow>
        ''ALTER TABLE '' @ dquote schema @ ''.'' @ dquote table_name
        @ '' ADD CONSTRAINT '' @ dquote conname @ '' '' @ defn @ '';'')"

text \<open>\<open>[r for r in rows if r[1] in tables] if tables else rows\<close>.\<close>

definition fk_rows :: "catalog \<Rightarrow> string \<Rightarrow> string list \<Rightarrow> (string \<times> string \<times> string) list" where
  "fk_rows cat schema tables =
     (let rows = pg_foreign_key cat schema
      in if tables \<noteq> []
         then filter (\<lambda>(conname, table_name, defn). table_name \<in> set tables) rows
         else rows)"

definition dump_foreign_keys :: "catalog \<Rightarrow> string \<Rightarrow> string list \<Rightarrow> string list" where
  "dump_foreign_keys cat schema tables =
     (let rows = fk_rows cat schema tables
      in if rows \<noteq> []
         then section_header ''FOREIGN KEYS'' @ map (add_foreign_key_line schema) rows @ ['''']
         else [])"

subsection \<open>Indexes\<close>

text \<open>
  The query of \<open>_dump_indexes\<close>: the rows of \<open>pg_indexes\<close> for the schema whose
  \<open>indexdef\<close> is \<open>NOT LIKE '%UNIQUE%'\<close> and whose \<open>indexname\<close> is not the name of a
  constraint of type \<open>p\<close> or \<open>u\<close> in the schema; it selects \<open>indexname\<close> and \<open>indexdef\<close>.
\<close>

definition index_query :: "catalog \<Rightarrow> string \<Rightarrow> (string \<times> string) list" where
  "index_query cat schema =
     map (\<lambda>(tablename, indexname, indexdef). (indexname, indexdef))
       (filter (\<lambda>(tablename, indexname, indexdef).
                  \<not> contains ''UNIQUE'' indexdef
                  \<and> indexname \<notin> set (pg_key_constraint_names cat schema))
          (pg_indexes cat schema))"

definition index_belongs_to :: "string \<Rightarrow> string list \<Rightarrow> bool" where
  "index_belongs_to indexdef tables =
     (let upper_def = upper indexdef
      in list_ex (\<lambda>t. contains ('' ON '' @ dquote t) indexdef
                     \<or> contains (code_points ('' ON '' @ t)) upper_def)
           tables)"

text \<open>\<open>[r for r in rows if self._index_belongs_to(r[1], tables)] if tables else rows\<close>.\<close>

definition idx_rows :: "catalog \<Rightarrow> string \<Rightarrow> string list \<Rightarrow> (string \<times> string) list" where
  "idx_rows cat schema tables =
     (let rows = index_query cat schema
      in if tables \<noteq> []
         then filter (\<lambda>(indexname, indexdef). index_belongs_to indexdef tables) rows
         else rows)"

definition dump_indexes :: "catalog \<Rightarrow> string \<Rightarrow> string list \<Rightarrow> string list" where
  "dump_indexes cat schema tables =
     (let rows = idx_rows cat schema tables
      in if rows \<noteq> []
         then section_header ''INDEXES''
              @ map (\<lambda>(indexname, indexdef). indexdef @ '';'') rows
              @ ['''']
         else [])"

subsection \<open>Views and data\<close>

text \<open>\<open>definition.rstrip(';')\<close>.\<close>

definition rstrip_semicolon :: "string \<Rightarrow> string" where
  "rstrip_semicolon s = rev (dropWhile (\<lambda>c. c = CHR '';'') (rev s))"

definition dump_views :: "catalog \<Rightarrow> string \<Rightarrow> string list" where
  "dump_views cat schema =
     (let rows = pg_views cat schema
      in if rows \<noteq> []
         then section_header ''VIEWS''
              @ concat (map (\<lambda>(viewname, defn).
                               [''CREATE OR REPLACE VIEW '' @ dquote schema @ ''.'' @ dquote viewname @ '' AS'',
                                rstrip_semicolon defn @ '';'',
                                '''']) rows)
         else [])"

definition SCHEMA_DUMP_BATCH_SIZE :: nat where
  "SCHEMA_DUMP_BATCH_SIZE = 1000"

text \<open>
  The \<open>while True\<close> loop of \<open>_dump_data\<close>: \<open>fetchmany\<close> takes the next batch of the rows
  that are left, and an empty batch ends the loop.
\<close>

function fetch_loop :: "(py_value list \<Rightarrow> string) \<Rightarrow> py_value list list \<Rightarrow> string list" where
  "fetch_loop insert_line remaining =
     (if take SCHEMA_DUMP_BATCH_SIZE remaining = [] then []
      else map insert_line (take SCHEMA_DUMP_BATCH_SIZE remaining)
           @ fetch_loop insert_line (drop SCHEMA_DUMP_BATCH_SIZE remaining))"
  by pat_completeness auto
termination
  by (relation "measure (\<lambda>(insert_line, remaining). length remaining)")
     (auto simp: SCHEMA_DUMP_BATCH_SIZE_def)

declare fetch_loop.simps [simp del]

definition dump_data :: "catalog \<Rightarrow> string \<Rightarrow> string \<Rightarrow> string list" where
  "dump_data cat schema table_name =
     (let col_names = map col_name (pg_attribute cat schema table_name)
      in if col_names = [] then []
         else (let cols_str = join '', '' (map dquote col_names)
               in fetch_loop
                    (\<lambda>row. ''INSERT INTO '' @ dquote schema @ ''.'' @ dquote table_name
                           @ '' ('' @ cols_str @ '') VALUES (''
                           @ join '', '' (map format_value row) @ '');'')
                    (table_data cat schema table_name)))"

subsection \<open>\<open>dump\<close> and \<open>dump_database\<close>\<close>

text \<open>
  \<open>dump_lines\<close> is the list \<open>lines\<close> of \<open>dump\<close> at its \<open>return\<close>; the sections are appended
  in the order of the source. \<open>resolve_tables\<close> is \<open>target_tables\<close>: \<open>tables = None\<close>
  selects every table of the schema.
\<close>

definition resolve_tables :: "catalog \<Rightarrow> string list option \<Rightarrow> string \<Rightarrow> string list" where
  "resolve_tables cat tables schema =
     (case tables of None \<Rightarrow> pg_tables cat schema | Some ts \<Rightarrow> ts)"

definition dump_lines ::
  "catalog \<Rightarrow> string list option \<Rightarrow> bool \<Rightarrow> string \<Rightarrow> bool \<Rightarrow> bool \<Rightarrow> string list" where
  "dump_lines cat tables include_data schema skip_header skip_extensions =
     (let target_tables = resolve_tables cat tables schema
      in (if \<not> skip_header
          then [''-- PostgreSQL Schema Dump'', ''-- Generated: '' @ now cat,
                ''-- Schema: '' @ schema, '''']
          else [])
         @ (if \<not> skip_extensions then dump_extensions cat else [])
         @ dump_enums cat schema
         @ dump_sequences cat schema target_tables
         @ concat (map (\<lambda>table_name. dump_table cat schema table_name @ ['''']) target_tables)
         @ dump_foreign_keys cat schema target_tables
         @ dump_indexes cat schema target_tables
         @ dump_views cat schema
         @ (if include_data
            then ['''', section_rule, ''-- DATA'', section_rule, '''']
                 @ concat (map (dump_data cat schema) target_tables)
            else []))"

definition dump ::
  "catalog \<Rightarrow> string list option \<Rightarrow> bool \<Rightarrow> string \<Rightarrow> bool \<Rightarrow> bool \<Rightarrow> string" where
  "dump cat tables include_data schema skip_header skip_extensions =
     join [newline] (dump_lines cat tables include_data schema skip_header skip_extensions)"

definition schema_rule :: string where
  "schema_rule = ''-- ###########################################################''"

text \<open>The body of the loop over the schemas in \<open>dump_database\<close>: what it appends.\<close>

definition schema_section :: "catalog \<Rightarrow> bool \<Rightarrow> string \<Rightarrow> string list" where
  "schema_section cat include_data schema =
     (let schema_sql = dump cat None include_data schema True True
      in if strip schema_sql \<noteq> []
         then [schema_rule, ''-- SCHEMA: '' @ schema, schema_rule, '''']
              @ (if schema \<noteq> ''public''
                 then [''CREATE SCHEMA IF NOT EXISTS '' @ dquote schema @ '';'', '''']
                 else [])
              @ [schema_sql, '''']
         else [])"

definition dump_database :: "catalog \<Rightarrow> bool \<Rightarrow> string" where
  "dump_database cat include_data =
     (let schemas = pg_namespace cat
      in join [newline]
           ([''-- PostgreSQL Full Database Dump'', ''-- Generated: '' @ now cat,
             ''-- Schemas: '' @ join '', '' schemas, '''']
            @ dump_extensions cat
            @ concat (map (schema_section cat include_data) schemas)))"

section \<open>Order of two statements in a text\<close>

text \<open>
  \<open>after_first p s\<close> is what follows the first occurrence of \<open>p\<close> in \<open>s\<close>, when \<open>p\<close> occurs.
  \<open>occurs_before a b text\<close>: \<open>b\<close> occurs in \<open>text\<close> after an occurrence of \<open>a\<close>. This
  is not an order on the statements of a text, since a text can hold \<open>a\<close> before \<open>b\<close>
  and \<open>b\<close> before \<open>a\<close>; that every occurrence of \<open>b\<close> comes after \<open>a\<close> is said by
  \<open>occurs_before a b text\<close> together with the negation of \<open>occurs_before b a text\<close>.
\<close>

fun after_first :: "string \<Rightarrow> string \<Rightarrow> string option" where
  "after_first p [] = (if p = [] then Some [] else None)"
| "after_first p (c # cs) =
     (if startswith (c # cs) p then Some (drop (length p) (c # cs)) else after_first p cs)"

definition occurs_before :: "string \<Rightarrow> string \<Rightarrow> string \<Rightarrow> bool" where
  "occurs_before a b text = (case after_first a text of None \<Rightarrow> False | Some rest \<Rightarrow> contains b rest)"

section \<open>Observations on a run\<close>

text \<open>
  What a caller can count in the calls made on the connection: statements that raised,
  commits, rollbacks; and the paths of a batch that \<open>_read_file\<close> cannot read.
\<close>

fun is_statement_error :: "db_event \<Rightarrow> bool" where
  "is_statement_error (ExecuteFailed q) = True"
| "is_statement_error ev = False"

definition statement_errors :: "db_event list \<Rightarrow> nat" where
  "statement_errors evs = length (filter is_statement_error evs)"

definition commits :: "db_event list \<Rightarrow> nat" where
  "commits evs = count_list evs Committed"

definition rollbacks :: "db_event list \<Rightarrow> nat" where
  "rollbacks evs = count_list evs RolledBack"

definition read_failures :: "world \<Rightarrow> string list \<Rightarrow> nat" where
  "read_failures w file_paths = length (filter (\<lambda>p. isl (read_file w p)) file_paths)"

section \<open>Concrete runs\<close>

text \<open>
  \<open>missing_file_world\<close>: \<open>a.sql\<close> does not exist, every other file holds \<open>SELECT 1;\<close>, the
  first statement sent to a fresh connection fails with a syntax error and every later one
  succeeds, commit and rollback succeed. In every world below the \<open>autocommit\<close> setter
  is the one of \<open>psycopg2\<close>.
\<close>

definition missing_file_world :: world where
  "missing_file_world =
     \<lparr>file_bytes = (\<lambda>p. if p = ''a.sql'' then Inl ''No such file or directory'' else Inr []),
      decode_utf8 = (\<lambda>bs. Some ''SELECT 1;''),
      decode_cp949 = (\<lambda>bs. None),
      execute_raises = (\<lambda>h q. if h = [] then Some ''syntax error'' else None),
      commit_raises = (\<lambda>h. None),
      rollback_raises = (\<lambda>h. None),
      autocommit_raises = psycopg2_autocommit\<rparr>"

text \<open>
  \<open>commit_fails_world\<close>: every file holds \<open>SELECT 1;\<close>, every statement succeeds, and
  every commit raises, as it does when a deferred constraint is violated.
\<close>

definition commit_fails_world :: world where
  "commit_fails_world =
     \<lparr>file_bytes = (\<lambda>p. Inr []),
      decode_utf8 = (\<lambda>bs. Some ''SELECT 1;''),
      decode_cp949 = (\<lambda>bs. None),
      execute_raises = (\<lambda>h q. None),
      commit_raises = (\<lambda>h. Some ''deferred constraint violated''),
      rollback_raises = (\<lambda>h. None),
      autocommit_raises = psycopg2_autocommit\<rparr>"

text \<open>\<open>undecodable_world\<close>: one byte \<open>0xFF\<close> that neither \<open>utf-8\<close> nor \<open>cp949\<close> decodes.\<close>

definition undecodable_world :: world where
  "undecodable_world =
     \<lparr>file_bytes = (\<lambda>p. Inr [0xFF]),
      decode_utf8 = (\<lambda>bs. None),
      decode_cp949 = (\<lambda>bs. None),
      execute_raises = (\<lambda>h q. None),
      commit_raises = (\<lambda>h. None),
      rollback_raises = (\<lambda>h. None),
      autocommit_raises = psycopg2_autocommit\<rparr>"


definition fresh_connection :: connection where
  "fresh_connection = \<lparr>autocommit = True, history = []\<rparr>"




text \<open>
  \<open>two_schema_catalog\<close>: the schemas \<open>public\<close> and \<open>sales\<close>, one table each, and the two
  tables reference each other by a foreign key. \<open>two_schema_dump\<close> is the text that
  \<open>dump_database\<close> writes for it, line by line.
\<close>

definition orders_fk :: "string \<times> string \<times> string" where
  "orders_fk = (''orders_fk'', ''orders'', ''FOREIGN KEY (id) REFERENCES sales.customers(id)'')"

definition customers_fk :: "string \<times> string \<times> string" where
  "customers_fk = (''customers_fk'', ''customers'', ''FOREIGN KEY (id) REFERENCES public.orders(id)'')"

definition two_schema_catalog :: catalog where
  "two_schema_catalog =
     \<lparr>now = ''2024-01-01 00:00:00'',
      pg_namespace = [''public'', ''sales''],
      pg_extension = [],
      pg_enum = (\<lambda>s. []),
      pg_sequence = (\<lambda>s. []),
      pg_tables = (\<lambda>s. if s = ''public'' then [''orders'']
                       else if s = ''sales'' then [''customers''] else []),
      pg_attribute = (\<lambda>s t. [\<lparr>col_name = ''id'', col_type = ''integer'',
                               col_not_null = True, col_default = None\<rparr>]),
      pg_primary_key = (\<lambda>s t. None),
      pg_unique = (\<lambda>s t. []),
      pg_check = (\<lambda>s t. []),
      pg_foreign_key = (\<lambda>s. if s = ''public'' then [orders_fk]
                            else if s = ''sales'' then [customers_fk] else []),
      pg_indexes = (\<lambda>s. []),
      pg_key_constraint_names = (\<lambda>s. []),
      pg_views = (\<lambda>s. []),
      table_data = (\<lambda>s t. [])\<rparr>"

definition two_schema_dump :: "string list" where
  "two_schema_dump =
     [''-- PostgreSQL Full Database Dump'',
      ''-- Generated: 2024-01-01 00:00:00'',
      ''-- Schemas: public, sales'',
      '''',
      schema_rule,
      ''-- SCHEMA: public'',
      schema_rule,
      '''',
      ''-- Table: public.orders'',
      create_table_line ''public'' ''orders'',
      ''    '' @ dquote ''id'' @ '' integer NOT NULL'',
      '');'',
      '''',
      section_rule,
      ''-- FOREIGN KEYS'',
      section_rule,
      '''',
      add_foreign_key_line ''public'' orders_fk,
      '''',
      '''',
      schema_rule,
      ''-- SCHEMA: sales'',
      schema_rule,
      '''',
      ''CREATE SCHEMA IF NOT EXISTS '' @ dquote ''sales'' @ '';'',
      '''',
      ''-- Table: sales.customers'',
      create_table_line ''sales'' ''customers'',
      ''    '' @ dquote ''id'' @ '' integer NOT NULL'',
      '');'',
      '''',
      section_rule,
      ''-- FOREIGN KEYS'',
      section_rule,
      '''',
      add_foreign_key_line ''sales'' customers_fk,
      '''',
      '''']"

text \<open>
  \<open>index_catalog\<close>: schema \<open>public\<close> with the tables \<open>users\<close> and \<open>orders\<close>. \<open>users\<close> has a
  primary key (backed by the index \<open>users_pkey\<close>), a unique index \<open>ux_users_email\<close> made
  by \<open>CREATE UNIQUE INDEX\<close>, which backs no constraint, and a plain index; \<open>orders\<close> has a
  plain index. The definitions are the texts of \<open>pg_indexes.indexdef\<close>, in which
  PostgreSQL names the table with its schema.
\<close>

definition ix_orders_day_sql :: string where
  "ix_orders_day_sql = ''CREATE INDEX ix_orders_day ON public.orders USING btree (day)''"

definition ix_users_name_sql :: string where
  "ix_users_name_sql = ''CREATE INDEX ix_users_name ON public.users USING btree (name)''"

definition users_pkey_sql :: string where
  "users_pkey_sql = ''CREATE UNIQUE INDEX users_pkey ON public.users USING btree (id)''"

definition ux_users_email_sql :: string where
  "ux_users_email_sql =
     ''CREATE UNIQUE INDEX ux_users_email ON public.users USING btree (email)''"

definition index_catalog :: catalog where
  "index_catalog =
     \<lparr>now = ''2024-01-01 00:00:00'',
      pg_namespace = [''public''],
      pg_extension = [],
      pg_enum = (\<lambda>s. []),
      pg_sequence = (\<lambda>s. []),
      pg_tables = (\<lambda>s. [''orders'', ''users'']),
      pg_attribute = (\<lambda>s t. []),
      pg_primary_key = (\<lambda>s t. if t = ''users'' then Some (''users_pkey'', [''id'']) else None),
      pg_unique = (\<lambda>s t. []),
      pg_check = (\<lambda>s t. []),
      pg_foreign_key = (\<lambda>s. []),
      pg_indexes =
        (\<lambda>s. [(''orders'', ''ix_orders_day'', ix_orders_day_sql),
                (''users'', ''ix_users_name'', ix_users_name_sql),
                (''users'', ''users_pkey'', users_pkey_sql),
                (''users'', ''ux_users_email'', ux_users_email_sql)]),
      pg_key_constraint_names = (\<lambda>s. [''users_pkey'']),
      pg_views = (\<lambda>s. []),
      table_data = (\<lambda>s t. [])\<rparr>"

section \<open>Properties\<close>

subsection \<open>Statement splitter\<close>

lemma split_step_in_dollar:
  assumes "split_step (queries, current, in_dollar) line = (queries', current', in_dollar')"
    and "in_dollar'"
  shows "queries' = queries \<and> current' = current @ [line]"
  using assms by (auto simp: split_step_def Let_def split: if_splits)

lemma split_step_boundary:
  assumes "split_step (queries, current, in_dollar) line = (queries', current', in_dollar')"
    and "queries' \<noteq> queries"
  shows "\<not> in_dollar' \<and> endswith (strip line) '';''"
  using assms by (auto simp: split_step_def Let_def split: if_splits)

lemmas splitter_defs =
  split_queries_def split_step_def close_query_def toggle_dollar_def comment_or_blank_def
  strip_def isspace_def startswith_def endswith_def newline_def Let_def

lemma split_queries_plpgsql_example: "split_queries plpgsql_example = [plpgsql_example]"
  by (simp add: plpgsql_example_def splitter_defs)

lemma split_queries_select_1: "split_queries ''SELECT 1;'' = [''SELECT 1;'']"
  by (simp add: splitter_defs)

text \<open>
  C2. A line that leaves the procedural-body flag set never closes a statement: the
  statements found so far are unchanged and the line joins the buffer, whatever it ends
  with; a step that does close a statement has the flag unset and a line ending in the
  terminator. The function of the specification, whose body holds two terminators on
  the line between the \<open>$$\<close> lines, is split into exactly one statement, the whole text.
\<close>

theorem split_queries_dollar_body:
  "(split_step (queries, current, in_dollar) line = (queries', current', in_dollar') \<longrightarrow>
      (in_dollar' \<longrightarrow> queries' = queries \<and> current' = current @ [line]) \<and>
      (queries' \<noteq> queries \<longrightarrow> \<not> in_dollar' \<and> endswith (strip line) '';'')) \<and>
   split_queries plpgsql_example = [plpgsql_example] \<and>
   length (split_queries plpgsql_example) = 1"
  using split_step_in_dollar [of queries current in_dollar line queries' current' in_dollar']
    split_step_boundary [of queries current in_dollar line queries' current' in_dollar']
  by (simp add: split_queries_plpgsql_example) blast

theorem split_queries_dollar_body_witness:
  "split_step ([], [''AS $$''], True) '' BEGIN RETURN 1; END;''
     = ([], [''AS $$'', '' BEGIN RETURN 1; END;''], True) \<and>
   endswith (strip '' BEGIN RETURN 1; END;'') '';'' \<and>
   split_step ([], [], False) ''SELECT 1;'' = ([''SELECT 1;''], [], False) \<and>
   [''SELECT 1;''] \<noteq> ([] :: string list)"
proof -
  have inside: "split_step ([], [''AS $$''], True) '' BEGIN RETURN 1; END;''
      = ([], [''AS $$'', '' BEGIN RETURN 1; END;''], True)"
    by (simp add: splitter_defs)
  have closing: "split_step ([], [], False) ''SELECT 1;'' = ([''SELECT 1;''], [], False)"
    by (simp add: splitter_defs)
  have ends: "endswith (strip '' BEGIN RETURN 1; END;'') '';''"
    by (simp add: splitter_defs)
  from inside closing ends
    split_queries_dollar_body [of "[]" "[''AS $$'']" True "'' BEGIN RETURN 1; END;''"
      "[]" "[''AS $$'', '' BEGIN RETURN 1; END;'']" True]
    split_queries_dollar_body [of "[]" "[]" False "''SELECT 1;''" "[''SELECT 1;'']" "[]" False]
  show ?thesis by simp
qed

subsection \<open>File reader\<close>

lemma read_file_loop_latin1_last:
  "read_file_loop w p (decs @ [decode_latin1]) \<noteq> Inl (EncodingUndetermined q)"
  by (induction decs) (auto simp: decode_latin1_def split: sum.splits option.splits)

lemma read_file_not_undetermined: "read_file w p \<noteq> Inl (EncodingUndetermined q)"
  using read_file_loop_latin1_last [of w p "[decode_utf8 w, decode_cp949 w]" q]
  by (simp add: read_file_def)

lemma read_file_loop_Inl:
  "read_file_loop w p decs = Inl e \<Longrightarrow>
     e = EncodingUndetermined p \<or> (\<exists>m. e = OSError m \<and> file_bytes w p = Inl m)"
  by (induction decs) (auto split: sum.splits option.splits)

lemma read_file_Inl:
  "read_file w p = Inl e \<Longrightarrow> \<exists>m. e = OSError m \<and> file_bytes w p = Inl m"
  using read_file_loop_Inl [of w p "[decode_utf8 w, decode_cp949 w, decode_latin1]" e]
    read_file_not_undetermined [of w p p]
  by (simp add: read_file_def)

lemma read_file_readable:
  "file_bytes w p = Inr bs \<Longrightarrow> \<exists>text. read_file w p = Inr text"
  using read_file_Inl [of w p] by (cases "read_file w p") auto

lemma read_file_is_IOError: "read_file w p = Inl e \<Longrightarrow> is_IOError e"
  by (auto dest: read_file_Inl)

text \<open>
  C10. \<open>_read_file\<close> never raises the "cannot determine encoding" error: \<open>latin-1\<close> is the
  last encoding tried and decodes every byte sequence. A file whose bytes can be read is
  always returned as text, whatever \<open>utf-8\<close> and \<open>cp949\<close> make of it, and every error of
  \<open>_read_file\<close> is the \<open>OSError\<close> of the operating system for that path.
\<close>

theorem read_file_encoding_error_unreachable:
  "read_file w p \<noteq> Inl (EncodingUndetermined q) \<and>
   (file_bytes w p = Inr bs \<longrightarrow> (\<exists>text. read_file w p = Inr text)) \<and>
   (read_file w p = Inl e \<longrightarrow> (\<exists>m. e = OSError m \<and> file_bytes w p = Inl m))"
  using read_file_not_undetermined [of w p q] read_file_readable [of w p bs]
    read_file_Inl [of w p e]
  by blast

theorem read_file_encoding_error_unreachable_witness:
  "file_bytes undecodable_world ''x.sql'' = Inr [0xFF] \<and>
   decode_utf8 undecodable_world [0xFF] = None \<and>
   decode_cp949 undecodable_world [0xFF] = None \<and>
   (\<exists>text. read_file undecodable_world ''x.sql'' = Inr text) \<and>
   read_file missing_file_world ''a.sql'' = Inl (OSError ''No such file or directory'') \<and>
   (\<exists>m. OSError ''No such file or directory'' = OSError m \<and>
        file_bytes missing_file_world ''a.sql'' = Inl m)"
proof -
  have readable: "file_bytes undecodable_world ''x.sql'' = Inr [0xFF]"
    by (simp add: undecodable_world_def)
  have missing: "read_file missing_file_world ''a.sql'' = Inl (OSError ''No such file or directory'')"
    by (simp add: read_file_def missing_file_world_def)
  from readable missing
    read_file_encoding_error_unreachable [of undecodable_world "''x.sql''" "''x.sql''" "[0xFF]"]
    read_file_encoding_error_unreachable [of missing_file_world "''a.sql''" "''a.sql''" "[]"
      "OSError ''No such file or directory''"]
  show ?thesis by (simp add: undecodable_world_def)
qed

subsection \<open>Execution engine\<close>

lemma statement_errors_append [simp]:
  "statement_errors (xs @ ys) = statement_errors xs + statement_errors ys"
  by (simp add: statement_errors_def)

lemma commits_append [simp]: "commits (xs @ ys) = commits xs + commits ys"
  by (induction xs) (auto simp: commits_def)

lemma rollbacks_append [simp]: "rollbacks (xs @ ys) = rollbacks xs + rollbacks ys"
  by (induction xs) (auto simp: rollbacks_def)


lemma set_autocommit_history:
  "set_autocommit w v c = Inr c' \<Longrightarrow> history c' = history c \<and> autocommit c' = v"
  by (auto simp: set_autocommit_def split: option.splits)









lemma single_transaction_restores_autocommit:
  assumes "execute_single_transaction w ps (c, r) = (e, c', r')"
    and "autocommit_raises w (history c') = None"
  shows "autocommit c' = autocommit c"
proof -
  obtain exc c1 r1 where run: "single_transaction_try w ps (c, r) = (exc, c1, r1)"
    by (metis prod_cases3)
  show ?thesis
  proof (cases "autocommit_raises w (history c1)")
    case None
    with assms(1) run show ?thesis
      by (auto simp: execute_single_transaction_def set_autocommit_def Let_def)
  next
    case (Some m)
    with assms(1) run have "c' = c1"
      by (auto simp: execute_single_transaction_def set_autocommit_def Let_def)
    with Some assms(2) show ?thesis by simp
  qed
qed

lemma per_file_restores_autocommit_on_return:
  "execute_per_file w ps (c, r) = (None, c', r') \<Longrightarrow> autocommit c' = autocommit c"
  by (auto simp: execute_per_file_def set_autocommit_def Let_def
      split: prod.splits outcome.splits option.splits)

lemma single_queries_events:
  assumes "single_queries w queries (c, r) = (out, c', r')"
  shows "\<exists>evs. history c' = history c @ evs \<and> commits evs = 0 \<and>
           autocommit c' = autocommit c \<and>
           total_files r' = total_files r \<and> success_files r' = success_files r \<and>
           (out = Completed \<longrightarrow>
              statement_errors evs = 0 \<and> rollbacks evs = 0 \<and>
              failed_files r' = failed_files r) \<and>
           (out = Stopped \<longrightarrow>
              statement_errors evs = 1 \<and> rollbacks evs = 1 \<and>
              failed_files r' = total_files r' - success_files r')"
  using assms
proof (induction queries arbitrary: c r)
  case Nil
  then show ?case by (auto simp: commits_def statement_errors_def rollbacks_def)
next
  case (Cons q qs)
  show ?case
  proof (cases "execute_raises w (history c) q")
    case None
    with Cons.prems have run:
      "single_queries w qs
         (record_event (Executed q) c, r\<lparr>success_count := success_count r + 1\<rparr>) = (out, c', r')"
      by simp
    from Cons.IH [OF run] show ?thesis
      by (auto simp: record_event_def commits_def statement_errors_def rollbacks_def)
  next
    case (Some m)
    with Cons.prems show ?thesis
      by (cases "rollback_raises w (history c @ [ExecuteFailed q])")
         (auto simp: record_event_def Let_def commits_def statement_errors_def rollbacks_def)
  qed
qed

lemma single_files_events:
  assumes "single_files w ps (c, r) = (out, c', r')"
  shows "\<exists>evs. history c' = history c @ evs \<and> commits evs = 0 \<and>
           autocommit c' = autocommit c \<and> total_files r' = total_files r \<and>
           (out = Completed \<longrightarrow>
              statement_errors evs = 0 \<and> rollbacks evs = 0 \<and> read_failures w ps = 0 \<and>
              success_files r' = success_files r + int (length ps) \<and>
              failed_files r' = failed_files r) \<and>
           (out = Stopped \<longrightarrow>
              rollbacks evs = 1 \<and>
              (statement_errors evs = 1 \<and> failed_files r' = total_files r' - success_files r'
               \<or> statement_errors evs = 0 \<and> 0 < read_failures w ps))"
  using assms
proof (induction ps arbitrary: c r)
  case Nil
  then show ?case by (auto simp: commits_def statement_errors_def rollbacks_def read_failures_def)
next
  case (Cons p ps)
  show ?case
  proof (cases "read_file w p")
    case (Inl e)
    then have io: "is_IOError e" by (rule read_file_is_IOError)
    with Inl Cons.prems show ?thesis
      by (cases "rollback_raises w (history c)")
         (auto simp: Let_def record_event_def commits_def statement_errors_def rollbacks_def
            read_failures_def)
  next
    case (Inr sql)
    let ?r1 = "r\<lparr>total_queries := total_queries r + int (length (split_queries sql))\<rparr>"
    obtain o2 c2 r2 where run: "single_queries w (split_queries sql) (c, ?r1) = (o2, c2, r2)"
      by (metis prod_cases3)
    from single_queries_events [OF run] obtain evs1 where
      h1: "history c2 = history c @ evs1" and k1: "commits evs1 = 0"
      and a1: "autocommit c2 = autocommit c"
      and t1: "total_files r2 = total_files r" and s1: "success_files r2 = success_files r"
      and ok1: "o2 = Completed \<longrightarrow>
              statement_errors evs1 = 0 \<and> rollbacks evs1 = 0 \<and> failed_files r2 = failed_files r"
      and st1: "o2 = Stopped \<longrightarrow>
              statement_errors evs1 = 1 \<and> rollbacks evs1 = 1 \<and>
              failed_files r2 = total_files r2 - success_files r2"
      by auto
    have nofail: "read_failures w (p # ps) = read_failures w ps"
      using Inr by (simp add: read_failures_def)
    show ?thesis
    proof (cases o2)
      case Completed
      with Cons.prems Inr run have rest:
        "single_files w ps (c2, r2\<lparr>success_files := success_files r2 + 1\<rparr>) = (out, c', r')"
        by (simp add: Let_def)
      from Cons.IH [OF rest] obtain evs2 where
        h2: "history c' = history c2 @ evs2" and k2: "commits evs2 = 0"
        and a2: "autocommit c' = autocommit c2"
        and t2: "total_files r' = total_files r2"
        and ok2: "out = Completed \<longrightarrow>
              statement_errors evs2 = 0 \<and> rollbacks evs2 = 0 \<and> read_failures w ps = 0 \<and>
              success_files r' = success_files r2 + 1 + int (length ps) \<and>
              failed_files r' = failed_files r2"
        and st2: "out = Stopped \<longrightarrow>
              rollbacks evs2 = 1 \<and>
              (statement_errors evs2 = 1 \<and> failed_files r' = total_files r' - success_files r'
               \<or> statement_errors evs2 = 0 \<and> 0 < read_failures w ps)"
        by auto
      have "history c' = history c @ (evs1 @ evs2)" using h1 h2 by simp
      moreover have "commits (evs1 @ evs2) = 0" using k1 k2 by simp
      moreover have "autocommit c' = autocommit c" using a1 a2 by simp
      moreover have "total_files r' = total_files r" using t1 t2 by simp
      moreover have "out = Completed \<longrightarrow>
              statement_errors (evs1 @ evs2) = 0 \<and> rollbacks (evs1 @ evs2) = 0 \<and>
              read_failures w (p # ps) = 0 \<and>
              success_files r' = success_files r + int (length (p # ps)) \<and>
              failed_files r' = failed_files r"
        using ok1 ok2 Completed s1 nofail by simp
      moreover have "out = Stopped \<longrightarrow>
              rollbacks (evs1 @ evs2) = 1 \<and>
              (statement_errors (evs1 @ evs2) = 1
                 \<and> failed_files r' = total_files r' - success_files r'
               \<or> statement_errors (evs1 @ evs2) = 0 \<and> 0 < read_failures w (p # ps))"
        using ok1 st2 Completed nofail by simp
      ultimately show ?thesis by blast
    next
      case Stopped
      with Cons.prems Inr run have "out = Stopped" "c' = c2" "r' = r2"
        by (simp_all add: Let_def)
      with h1 k1 a1 t1 st1 Stopped show ?thesis by auto
    next
      case (Raised e)
      with Cons.prems Inr run have "out = Raised e" "c' = c2" "r' = r2"
        by (simp_all add: Let_def)
      with h1 k1 a1 t1 show ?thesis by auto
    qed
  qed
qed

lemma single_transaction_try_commit_only_after_all:
  assumes "single_transaction_try w ps (c, r) = (e, c', r')"
  shows "\<exists>evs. history c' = history c @ evs \<and>
            (commits evs = 0 \<or>
             commits evs = 1 \<and> e = None \<and> statement_errors evs = 0 \<and> rollbacks evs = 0 \<and>
             read_failures w ps = 0 \<and> success_files r' = success_files r + int (length ps))"
proof (cases "set_autocommit w False c")
  case (Inl x)
  with assms have "c' = c"
    by (simp add: single_transaction_try_def)
  then have "history c' = history c @ [] \<and> commits [] = 0"
    by (simp add: commits_def)
  then show ?thesis by blast
next
  case (Inr c0)
  then have h0: "history c0 = history c"
    by (simp add: set_autocommit_history)
  obtain out c1 r1 where run: "single_files w ps (c0, r) = (out, c1, r1)"
    by (metis prod_cases3)
  from single_files_events [OF run] h0 obtain evs where
    h: "history c1 = history c @ evs" and k: "commits evs = 0"
    and ok: "out = Completed \<longrightarrow>
              statement_errors evs = 0 \<and> rollbacks evs = 0 \<and> read_failures w ps = 0 \<and>
              success_files r1 = success_files r + int (length ps) \<and>
              failed_files r1 = failed_files r"
    by auto
  show ?thesis
  proof (cases out)
    case Completed
    show ?thesis
    proof (cases "commit_raises w (history c1)")
      case None
      with assms run Inr Completed have "e = None" "r' = r1"
        "c' = record_event Committed c1"
        by (simp_all add: single_transaction_try_def)
      moreover have "commits (evs @ [Committed]) = 1"
        using k by (simp add: commits_def)
      moreover have "statement_errors (evs @ [Committed]) = 0" "rollbacks (evs @ [Committed]) = 0"
        using ok Completed by (simp_all add: statement_errors_def rollbacks_def)
      ultimately show ?thesis
        using h ok Completed by (auto simp: record_event_def)
    next
      case (Some m)
      with assms run Inr Completed have "c' = record_event CommitFailed c1"
        by (simp add: single_transaction_try_def)
      moreover have "commits (evs @ [CommitFailed]) = 0"
        using k by (simp add: commits_def)
      ultimately show ?thesis
        using h by (auto simp: record_event_def)
    qed
  next
    case Stopped
    with assms run Inr have "c' = c1"
      by (simp add: single_transaction_try_def)
    with h k show ?thesis by auto
  next
    case (Raised x)
    with assms run Inr have "c' = c1"
      by (simp add: single_transaction_try_def)
    with h k show ?thesis by auto
  qed
qed

lemma single_transaction_commit_only_after_all:
  assumes "execute_single_transaction w ps (c, r) = (e, c', r')"
  shows "\<exists>evs. history c' = history c @ evs \<and>
            (commits evs = 0 \<or>
             commits evs = 1 \<and> statement_errors evs = 0 \<and> rollbacks evs = 0 \<and>
             read_failures w ps = 0 \<and> success_files r' = success_files r + int (length ps))"
proof -
  obtain exc c1 r1 where run: "single_transaction_try w ps (c, r) = (exc, c1, r1)"
    by (metis prod_cases3)
  have "history c' = history c1 \<and> r' = r1"
  proof (cases "set_autocommit w (autocommit c) c1")
    case (Inl x)
    with assms run show ?thesis
      by (simp add: execute_single_transaction_def)
  next
    case (Inr c2)
    with assms run have "c' = c2" "r' = r1"
      by (simp_all add: execute_single_transaction_def)
    with Inr show ?thesis by (simp add: set_autocommit_history)
  qed
  with single_transaction_try_commit_only_after_all [OF run] show ?thesis
    by auto
qed


lemmas executor_defs =
  execute_files_def execute_single_transaction_def single_transaction_try_def
  execute_per_file_def per_file_body_def set_autocommit_def psycopg2_autocommit_def
  transaction_open_def read_file_def new_result_def record_event_def fresh_connection_def

text \<open>
  C1. Two files in single-transaction mode, the first of which does not exist: the run
  rolls back and stops, but \<open>failed_files\<close> is left at 1 although \<open>total_files\<close> minus
  \<open>success_files\<close> is 2. When instead the first statement of the first file fails, the
  same batch size gives \<open>failed_files = 2\<close>: only the statement branch recomputes.
\<close>

theorem single_transaction_read_failure_not_recounted:
  "execute_files missing_file_world fresh_connection [''a.sql'', ''b.sql''] True =
     (\<lparr>autocommit = True, history = [RolledBack]\<rparr>,
      Inr \<lparr>total_files = 2, success_files = 0, failed_files = 1,
           total_queries = 0, success_count = 0, error_count = 0\<rparr>) \<and>
   execute_files missing_file_world fresh_connection [''b.sql'', ''c.sql''] True =
     (\<lparr>autocommit = True, history = [ExecuteFailed ''SELECT 1;'', RolledBack]\<rparr>,
      Inr \<lparr>total_files = 2, success_files = 0, failed_files = 2,
           total_queries = 1, success_count = 0, error_count = 1\<rparr>)"
  by (simp add: executor_defs missing_file_world_def split_queries_select_1)

text \<open>
  C6. Per-file mode, one file whose statement succeeds, and a commit that raises: the
  exception escapes \<open>execute_files\<close> and the connection is left with autocommit off,
  although it was on before the call. Single-transaction mode on the same input restores
  it, through its \<open>finally\<close> clause.
\<close>

theorem per_file_autocommit_lost_on_exception:
  "autocommit fresh_connection \<and>
   execute_files commit_fails_world fresh_connection [''a.sql''] False =
     (\<lparr>autocommit = False, history = [Executed ''SELECT 1;'', CommitFailed]\<rparr>,
      Inl (DatabaseError ''deferred constraint violated'')) \<and>
   execute_files commit_fails_world fresh_connection [''a.sql''] True =
     (\<lparr>autocommit = True, history = [Executed ''SELECT 1;'', CommitFailed]\<rparr>,
      Inl (DatabaseError ''deferred constraint violated''))"
  by (simp add: executor_defs commit_fails_world_def split_queries_select_1)




subsection \<open>Verification engine\<close>







text \<open>
  C9. The \<open>errors\<close> list of the result of \<open>verify\<close> has at most one entry.
\<close>

theorem verify_errors_at_most_one: "length (errors (verify db schema)) \<le> 1"
  by (auto simp: verify_def verify_try_def new_verification_def Let_def
      split: sum.splits prod.splits option.splits)

subsection \<open>Text and order of occurrence\<close>

lemma startswith_iff: "startswith s p \<longleftrightarrow> (\<exists>v. s = p @ v)"
proof
  assume "startswith s p"
  then have "s = p @ drop (length p) s"
    by (metis append_take_drop_id startswith_def)
  then show "\<exists>v. s = p @ v" ..
next
  assume "\<exists>v. s = p @ v"
  then show "startswith s p" by (auto simp: startswith_def)
qed

lemma contains_append_left: "contains p s \<Longrightarrow> contains p (u @ s)"
  by (induction u) auto

lemma contains_intro: "contains p (u @ p @ v)"
proof (induction u)
  case Nil
  show ?case
  proof (cases "p @ v")
    case Nil
    then show ?thesis by simp
  next
    case (Cons c cs)
    have "startswith (p @ v) p" by (simp add: startswith_iff)
    with Cons show ?thesis by simp
  qed
next
  case (Cons c u)
  then show ?case by simp
qed

lemma contains_elim: "contains p s \<Longrightarrow> \<exists>u v. s = u @ p @ v"
proof (induction s)
  case Nil
  then show ?case by simp
next
  case (Cons c cs)
  from Cons.prems have "startswith (c # cs) p \<or> contains p cs" by simp
  then show ?case
  proof
    assume "startswith (c # cs) p"
    then obtain v where "c # cs = p @ v" by (auto simp: startswith_iff)
    then have "c # cs = [] @ p @ v" by simp
    then show ?thesis by blast
  next
    assume "contains p cs"
    with Cons.IH obtain u v where "cs = u @ p @ v" by blast
    then have "c # cs = (c # u) @ p @ v" by simp
    then show ?thesis by blast
  qed
qed

lemma contains_iff: "contains p s \<longleftrightarrow> (\<exists>u v. s = u @ p @ v)"
  using contains_intro contains_elim by blast

lemma after_first_intro:
  "\<exists>rest k. after_first a (x @ a @ r) = Some rest \<and> r = drop k rest"
proof (induction x)
  case Nil
  show ?case
  proof (cases "a @ r")
    case Nil
    then have "after_first a ([] @ a @ r) = Some [] \<and> r = drop 0 []" by simp
    then show ?thesis by blast
  next
    case (Cons c cs)
    have "startswith (a @ r) a" by (simp add: startswith_iff)
    with Cons have "after_first a (a @ r) = Some (drop (length a) (a @ r))"
      by (metis after_first.simps(2))
    then have "after_first a ([] @ a @ r) = Some r \<and> r = drop 0 r" by simp
    then show ?thesis by blast
  qed
next
  case (Cons c x)
  show ?case
  proof (cases "startswith (c # x @ a @ r) a")
    case True
    then have "after_first a ((c # x) @ a @ r) = Some (drop (length a) ((c # x) @ a @ r))"
      by simp
    moreover have "r = drop (length (c # x)) (drop (length a) ((c # x) @ a @ r))"
      by (simp add: add.commute)
    ultimately show ?thesis by blast
  next
    case False
    then have "after_first a ((c # x) @ a @ r) = after_first a (x @ a @ r)" by simp
    with Cons.IH show ?thesis by simp
  qed
qed

lemma contains_drop: "contains p (drop k s) \<Longrightarrow> contains p s"
  using contains_append_left [of p "drop k s" "take k s"] by simp

lemma occurs_before_intro: "occurs_before a b (x @ a @ y @ b @ z)"
proof -
  obtain rest k where first: "after_first a (x @ a @ (y @ b @ z)) = Some rest"
    and r: "y @ b @ z = drop k rest"
    using after_first_intro [of a x "y @ b @ z"] by blast
  have "contains b (y @ b @ z)" by (rule contains_intro)
  with r have "contains b rest" using contains_drop [of b k rest] by simp
  with first show ?thesis by (simp add: occurs_before_def)
qed

lemma after_first_elim: "after_first a s = Some rest \<Longrightarrow> \<exists>x. s = x @ a @ rest"
proof (induction s)
  case Nil
  then show ?case by (auto split: if_splits)
next
  case (Cons c cs)
  show ?case
  proof (cases "startswith (c # cs) a")
    case True
    with Cons.prems have "rest = drop (length a) (c # cs)" by simp
    moreover from True have "c # cs = a @ drop (length a) (c # cs)"
      by (metis append_take_drop_id startswith_def)
    ultimately have "c # cs = [] @ a @ rest" by simp
    then show ?thesis by blast
  next
    case False
    with Cons.prems have "after_first a cs = Some rest" by simp
    with Cons.IH obtain x where "cs = x @ a @ rest" by blast
    then have "c # cs = (c # x) @ a @ rest" by simp
    then show ?thesis by blast
  qed
qed

lemma occurs_before_iff:
  "occurs_before a b text \<longleftrightarrow> (\<exists>x y z. text = x @ a @ y @ b @ z)"
proof
  assume "occurs_before a b text"
  then obtain rest where first: "after_first a text = Some rest" and "contains b rest"
    by (auto simp: occurs_before_def split: option.splits)
  then obtain y z where "rest = y @ b @ z" by (auto simp: contains_iff)
  with after_first_elim [OF first] show "\<exists>x y z. text = x @ a @ y @ b @ z" by blast
next
  assume "\<exists>x y z. text = x @ a @ y @ b @ z"
  then show "occurs_before a b text" using occurs_before_intro by blast
qed

lemma join_Cons: "join sep (x # xs) = (if xs = [] then x else x @ sep @ join sep xs)"
  by (cases xs) simp_all

lemma join_split:
  "\<exists>u v. join sep (xs @ y # ys) = u @ y @ v \<and> (\<exists>v'. v = v' @ join sep ys)"
proof (induction xs)
  case Nil
  show ?case
  proof (cases ys)
    case Nil
    then have "join sep ([] @ y # ys) = [] @ y @ [] \<and> [] = [] @ join sep ys" by simp
    then show ?thesis by blast
  next
    case (Cons z zs)
    then have "join sep ([] @ y # ys) = [] @ y @ (sep @ join sep ys) \<and>
        sep @ join sep ys = sep @ join sep ys"
      by simp
    then show ?thesis by blast
  qed
next
  case (Cons x xs)
  then obtain u v v' where "join sep (xs @ y # ys) = u @ y @ v" and "v = v' @ join sep ys"
    by blast
  then have "join sep ((x # xs) @ y # ys) = (x @ sep @ u) @ y @ v"
    by (simp add: join_Cons)
  with \<open>v = v' @ join sep ys\<close> show ?case by blast
qed

lemma join_two:
  "\<exists>u v w. join sep (pre @ a # mid @ b # post) = u @ a @ v @ b @ w"
proof -
  obtain u v v' where 1: "join sep (pre @ a # (mid @ b # post)) = u @ a @ v"
    and 2: "v = v' @ join sep (mid @ b # post)"
    using join_split [of sep pre a "mid @ b # post"] by blast
  obtain u2 v2 where 3: "join sep (mid @ b # post) = u2 @ b @ v2"
    using join_split [of sep mid b post] by blast
  from 1 2 3 have "join sep (pre @ a # mid @ b # post) = u @ a @ (v' @ u2) @ b @ v2"
    by simp
  then show ?thesis by blast
qed

lemma join_one: "x \<in> set ls \<Longrightarrow> \<exists>u v. join sep ls = u @ x @ v"
proof -
  assume "x \<in> set ls"
  then obtain xs ys where "ls = xs @ x # ys" by (meson split_list)
  with join_split [of sep xs x ys] show ?thesis by auto
qed

lemma occurs_before_join:
  assumes "a \<in> set A" and "b \<in> set B"
  shows "occurs_before a b (join sep (P @ A @ B @ R))"
proof -
  from assms obtain A1 A2 B1 B2 where A: "A = A1 @ a # A2" and B: "B = B1 @ b # B2"
    by (meson split_list)
  then have "P @ A @ B @ R = (P @ A1) @ a # (A2 @ B1) @ b # (B2 @ R)" by simp
  with join_two [of sep "P @ A1" a "A2 @ B1" b "B2 @ R"]
  obtain u v w where "join sep (P @ A @ B @ R) = u @ a @ v @ b @ w" by auto
  then show ?thesis by (simp add: occurs_before_intro)
qed

lemma startswith_Nil: "startswith s [] = True"
  by (simp add: startswith_def)

lemma startswith_Nil_Cons: "startswith [] (p # ps) = False"
  by (simp add: startswith_def)

lemma startswith_Cons_Cons:
  "startswith (c # cs) (p # ps) = (if c = p then startswith cs ps else False)"
  by (simp add: startswith_def)

lemma strip_Cons_nonspace: "\<not> isspace c \<Longrightarrow> strip (c # cs) \<noteq> []"
  by (simp add: strip_def)


lemma startswith_length: "startswith l a \<Longrightarrow> length a \<le> length l"
  by (metis startswith_def length_take min.cobounded1)

lemma startswith_line:
  assumes "newline \<notin> set a" and "a \<noteq> []"
  shows "startswith (l @ newline # rest) a = startswith l a"
proof (cases "length a \<le> length l")
  case True
  then show ?thesis by (simp add: startswith_def)
next
  case False
  then have "take (length a) (l @ newline # rest) = l @ newline # take (length a - Suc (length l)) rest"
    by (simp add: take_Cons')
  then have "newline \<in> set (take (length a) (l @ newline # rest))" by simp
  with assms(1) have "take (length a) (l @ newline # rest) \<noteq> a" by metis
  moreover from False have "\<not> startswith l a" using startswith_length by blast
  ultimately show ?thesis by (simp add: startswith_def)
qed

lemma after_first_line:
  assumes "newline \<notin> set a" and "a \<noteq> []"
  shows "after_first a (l @ newline # rest) =
     (case after_first a l of Some r \<Rightarrow> Some (r @ newline # rest) | None \<Rightarrow> after_first a rest)"
proof (induction l)
  case Nil
  have "startswith (newline # rest) a = startswith [] a"
    using startswith_line [OF assms, of "[]" rest] by simp
  with assms(2) show ?case by (simp add: startswith_def)
next
  case (Cons c l)
  show ?case
  proof (cases "startswith (c # l) a")
    case True
    then have "startswith ((c # l) @ newline # rest) a"
      using startswith_line [OF assms, of "c # l" rest] by simp
    moreover from True have "length a \<le> length (c # l)" by (rule startswith_length)
    then have "drop (length a) ((c # l) @ newline # rest) = drop (length a) (c # l) @ newline # rest"
      using drop_append [of "length a" "c # l" "newline # rest"] by simp
    ultimately show ?thesis using True by simp
  next
    case False
    then have "\<not> startswith ((c # l) @ newline # rest) a"
      using startswith_line [OF assms, of "c # l" rest] by simp
    with False Cons.IH show ?thesis by simp
  qed
qed

lemma contains_line:
  assumes "newline \<notin> set b" and "b \<noteq> []"
  shows "contains b (l @ newline # rest) = (contains b l \<or> contains b rest)"
proof (induction l)
  case Nil
  have "startswith (newline # rest) b = startswith [] b"
    using startswith_line [OF assms, of "[]" rest] by simp
  with assms(2) show ?case by (simp add: startswith_def)
next
  case (Cons c l)
  have "startswith ((c # l) @ newline # rest) b = startswith (c # l) b"
    using startswith_line [OF assms, of "c # l" rest] by simp
  with Cons.IH show ?case by auto
qed

lemma after_first_join:
  assumes "newline \<notin> set a" and "a \<noteq> []"
  shows "after_first a (join [newline] (l # ls)) =
     (case after_first a l of
        Some r \<Rightarrow> Some (join [newline] (r # ls))
      | None \<Rightarrow> if ls = [] then None else after_first a (join [newline] ls))"
proof (cases ls)
  case Nil
  then show ?thesis by (simp split: option.splits)
next
  case (Cons m ms)
  then show ?thesis by (simp add: after_first_line [OF assms] split: option.splits)
qed

lemma contains_join:
  assumes "newline \<notin> set b" and "b \<noteq> []"
  shows "contains b (join [newline] (l # ls)) =
     (contains b l \<or> (ls \<noteq> [] \<and> contains b (join [newline] ls)))"
proof (cases ls)
  case Nil
  then show ?thesis by simp
next
  case (Cons m ms)
  then show ?thesis by (simp add: contains_line [OF assms])
qed

lemmas scan_rules =
  after_first_join [unfolded newline_def] contains_join [unfolded newline_def]

lemmas scan_defs = occurs_before_def add_foreign_key_line_def create_table_line_def dquote_def
  newline_def startswith_Nil startswith_Nil_Cons startswith_Cons_Cons


subsection \<open>Value formatter\<close>




























subsection \<open>Schema dump\<close>

lemma create_table_line_in_tables:
  "t \<in> set ts \<Longrightarrow>
   create_table_line schema t
     \<in> set (concat (map (\<lambda>table_name. dump_table cat schema table_name @ ['''']) ts))"
  by (auto simp: dump_table_def Let_def)

lemma add_foreign_key_line_in_section:
  "row \<in> set (fk_rows cat schema ts) \<Longrightarrow>
   add_foreign_key_line schema row \<in> set (dump_foreign_keys cat schema ts)"
  by (auto simp: dump_foreign_keys_def Let_def)

lemma dump_tables_before_fks:
  assumes "t \<in> set (resolve_tables cat tables schema)"
    and "row \<in> set (fk_rows cat schema (resolve_tables cat tables schema))"
  shows "occurs_before (create_table_line schema t) (add_foreign_key_line schema row)
           (dump cat tables include_data schema skip_header skip_extensions)"
proof -
  let ?T = "resolve_tables cat tables schema"
  let ?P = "(if \<not> skip_header
          then [''-- PostgreSQL Schema Dump'', ''-- Generated: '' @ now cat,
                ''-- Schema: '' @ schema, '''']
          else [])
         @ (if \<not> skip_extensions then dump_extensions cat else [])
         @ dump_enums cat schema
         @ dump_sequences cat schema ?T"
  let ?A = "concat (map (\<lambda>table_name. dump_table cat schema table_name @ ['''']) ?T)"
  let ?B = "dump_foreign_keys cat schema ?T"
  let ?R = "dump_indexes cat schema ?T
         @ dump_views cat schema
         @ (if include_data
            then ['''', section_rule, ''-- DATA'', section_rule, '''']
                 @ concat (map (dump_data cat schema) ?T)
            else [])"
  have lines: "dump_lines cat tables include_data schema skip_header skip_extensions
      = ?P @ ?A @ ?B @ ?R"
    by (simp add: dump_lines_def Let_def)
  have a: "create_table_line schema t \<in> set ?A"
    using assms(1) by (rule create_table_line_in_tables)
  have b: "add_foreign_key_line schema row \<in> set ?B"
    using assms(2) by (rule add_foreign_key_line_in_section)
  show ?thesis
    unfolding dump_def lines using a b by (rule occurs_before_join)
qed

lemma in_set_dropWhile: "x \<in> set xs \<Longrightarrow> \<not> P x \<Longrightarrow> x \<in> set (dropWhile P xs)"
  by (induction xs) auto

lemma strip_nonempty: "c \<in> set s \<Longrightarrow> \<not> isspace c \<Longrightarrow> strip s \<noteq> []"
proof -
  assume c: "c \<in> set s" and ns: "\<not> isspace c"
  then have "c \<in> set (rev (dropWhile isspace s))"
    by (simp add: in_set_dropWhile)
  then have "c \<in> set (dropWhile isspace (rev (dropWhile isspace s)))"
    using ns by (rule in_set_dropWhile)
  then have "dropWhile isspace (rev (dropWhile isspace s)) \<noteq> []"
    by (metis empty_iff empty_set)
  then show ?thesis by (simp add: strip_def del: dropWhile_eq_Nil_conv)
qed

lemma dump_database_tables_before_fks:
  assumes "schema \<in> set (pg_namespace cat)"
    and "t \<in> set (pg_tables cat schema)"
    and "row \<in> set (fk_rows cat schema (pg_tables cat schema))"
  shows "occurs_before (create_table_line schema t) (add_foreign_key_line schema row)
           (dump_database cat include_data)"
proof -
  let ?sql = "dump cat None include_data schema True True"
  let ?a = "create_table_line schema t"
  let ?b = "add_foreign_key_line schema row"
  have "occurs_before ?a ?b ?sql"
    using assms(2,3) dump_tables_before_fks [of t cat None schema row include_data True True]
    by (simp add: resolve_tables_def)
  then obtain x y z where sql: "?sql = x @ ?a @ y @ ?b @ z"
    by (auto simp: occurs_before_iff)
  have "CHR ''C'' \<in> set ?sql"
    unfolding sql by (simp add: create_table_line_def)
  moreover have "\<not> isspace (CHR ''C'')" by (simp add: isspace_def)
  ultimately have "strip ?sql \<noteq> []" by (rule strip_nonempty)
  then have "?sql \<in> set (schema_section cat include_data schema)"
    by (simp add: schema_section_def Let_def)
  with assms(1) have "?sql \<in> set
      ([''-- PostgreSQL Full Database Dump'', ''-- Generated: '' @ now cat,
        ''-- Schemas: '' @ join '', '' (pg_namespace cat), '''']
       @ dump_extensions cat
       @ concat (map (schema_section cat include_data) (pg_namespace cat)))"
    by auto
  then obtain u v where "dump_database cat include_data = u @ ?sql @ v"
    unfolding dump_database_def Let_def by (metis join_one)
  then have "dump_database cat include_data = (u @ x) @ ?a @ y @ ?b @ (z @ v)"
    by (simp add: sql)
  then show ?thesis by (simp only: occurs_before_intro)
qed

lemmas dump_defs =
  dump_database_def schema_section_def dump_def dump_lines_def resolve_tables_def
  dump_extensions_def dump_enums_def dump_sequences_def dump_table_def dump_foreign_keys_def
  fk_rows_def dump_indexes_def idx_rows_def index_query_def dump_views_def format_column_def
  add_foreign_key_line_def create_table_line_def dquote_def section_header_def
  section_rule_def schema_rule_def newline_def Let_def

lemma two_schema_dump_text:
  "dump_database two_schema_catalog False = join [newline] two_schema_dump"
  by (simp add: dump_defs two_schema_catalog_def orders_fk_def customers_fk_def
      two_schema_dump_def strip_Cons_nonspace isspace_def)

text \<open>
  C3. The dump of the whole database for \<open>two_schema_catalog\<close>, whose tables
  \<open>public.orders\<close> and \<open>sales.customers\<close> reference each other, is the text
  \<open>two_schema_dump\<close>. In it the \<open>ALTER TABLE\<close> statement that adds the foreign key of
  \<open>public.orders\<close>, which references \<open>sales.customers\<close>, is written before the
  \<open>CREATE TABLE\<close> statement of \<open>sales.customers\<close>, and that \<open>CREATE TABLE\<close> statement
  occurs nowhere before it: replayed from the top, the foreign key names a table that
  does not exist yet.
\<close>

theorem dump_database_fk_before_later_schema_table:
  "dump_database two_schema_catalog False = join [newline] two_schema_dump \<and>
   occurs_before (add_foreign_key_line ''public'' orders_fk)
     (create_table_line ''sales'' ''customers'') (dump_database two_schema_catalog False) \<and>
   \<not> occurs_before (create_table_line ''sales'' ''customers'')
       (add_foreign_key_line ''public'' orders_fk) (dump_database two_schema_catalog False)"
proof -
  have dumped: "dump_database two_schema_catalog False = join [newline] two_schema_dump"
    by (rule two_schema_dump_text)
  have "occurs_before (add_foreign_key_line ''public'' orders_fk)
     (create_table_line ''sales'' ''customers'') (join [newline] two_schema_dump) \<and>
   \<not> occurs_before (create_table_line ''sales'' ''customers'')
       (add_foreign_key_line ''public'' orders_fk) (join [newline] two_schema_dump)"
    by (simp add: two_schema_dump_def orders_fk_def customers_fk_def
        section_rule_def schema_rule_def scan_defs scan_rules del: join.simps)
  with dumped show ?thesis by (simp only:) simp
qed

lemma index_query_iff:
  "(indexname, indexdef) \<in> set (index_query cat schema) \<longleftrightarrow>
     (\<exists>tablename. (tablename, indexname, indexdef) \<in> set (pg_indexes cat schema)) \<and>
     \<not> contains ''UNIQUE'' indexdef \<and>
     indexname \<notin> set (pg_key_constraint_names cat schema)"
  by (force simp: index_query_def)

lemma dump_indexes_lines:
  "dump_indexes cat schema tables =
     (if idx_rows cat schema tables = [] then []
      else section_header ''INDEXES''
           @ map (\<lambda>(indexname, indexdef). indexdef @ '';'') (idx_rows cat schema tables)
           @ [''''])"
  by (simp add: dump_indexes_def Let_def)

text \<open>
  The result of \<open>str.upper\<close> holds no letter from \<open>a\<close> to \<open>z\<close>, so the test
  \<open>f" ON {t}" in upper\<close>, in which the table name is not put in upper case, fails for
  every table name that holds such a letter.
\<close>

lemma upper_char_not_lower: "n \<in> set (upper_char c) \<Longrightarrow> n < 97 \<or> 122 < n"
  by (auto simp: upper_char_def Let_def split: if_splits)

lemma upper_not_lower: "n \<in> set (upper s) \<Longrightarrow> n < 97 \<or> 122 < n"
  by (auto simp: upper_def dest: upper_char_not_lower)

lemma contains_subset: "contains p s \<Longrightarrow> set p \<subseteq> set s"
  by (auto simp: contains_iff)

lemma unquoted_test_fails_on_lower_case:
  assumes "c \<in> set t" and "97 \<le> (of_char c :: nat)" and "(of_char c :: nat) \<le> 122"
  shows "\<not> contains (code_points ('' ON '' @ t)) (upper indexdef)"
proof
  assume "contains (code_points ('' ON '' @ t)) (upper indexdef)"
  then have "set (code_points ('' ON '' @ t)) \<subseteq> set (upper indexdef)"
    by (rule contains_subset)
  moreover have "of_char c \<in> set (code_points ('' ON '' @ t))"
    using assms(1) by (simp add: code_points_def)
  ultimately have "of_char c \<in> set (upper indexdef)" by blast
  then have "(of_char c :: nat) < 97 \<or> 122 < (of_char c :: nat)"
    by (rule upper_not_lower)
  with assms(2,3) show False by simp
qed

lemmas index_defs =
  idx_rows_def index_query_def index_belongs_to_def upper_def upper_char_def code_points_def
  dquote_def ix_orders_day_sql_def ix_users_name_sql_def users_pkey_sql_def
  ux_users_email_sql_def index_catalog_def resolve_tables_def Let_def
  startswith_Nil startswith_Nil_Cons startswith_Cons_Cons

lemma index_catalog_query:
  "index_query index_catalog ''public'' =
     [(''ix_orders_day'', ix_orders_day_sql), (''ix_users_name'', ix_users_name_sql)]"
  by (simp add: index_defs)

lemma printed_definitions_not_matched:
  "index_belongs_to ix_orders_day_sql [''orders'', ''users''] = False"
  "index_belongs_to ix_users_name_sql [''orders'', ''users''] = False"
  "index_belongs_to ix_users_name_sql [''users''] = False"
  "index_belongs_to ix_orders_day_sql [''users''] = False"
  "index_belongs_to ux_users_email_sql [''users''] = False"
  by (simp_all add: index_defs)

text \<open>
  C5. \<open>index_catalog\<close> holds two indexes of the table \<open>users\<close> that back no constraint, the
  plain \<open>ix_users_name\<close> and the unique \<open>ux_users_email\<close>, besides the index of the
  primary key. The query leaves the unique index out, because its definition holds the
  word \<open>UNIQUE\<close>; \<open>_index_belongs_to\<close> rejects the definitions of both for the table
  list \<open>[users]\<close>, because the table is named \<open>public.users\<close> in them; and the index
  section of the dump is empty, for that list and for the list of all tables.
\<close>

theorem dump_indexes_empty_for_printed_definitions:
  "pg_indexes index_catalog ''public'' =
     [(''orders'', ''ix_orders_day'', ix_orders_day_sql),
      (''users'', ''ix_users_name'', ix_users_name_sql),
      (''users'', ''users_pkey'', users_pkey_sql),
      (''users'', ''ux_users_email'', ux_users_email_sql)] \<and>
   pg_key_constraint_names index_catalog ''public'' = [''users_pkey''] \<and>
   index_query index_catalog ''public'' =
     [(''ix_orders_day'', ix_orders_day_sql), (''ix_users_name'', ix_users_name_sql)] \<and>
   index_belongs_to ix_users_name_sql [''users''] = False \<and>
   index_belongs_to ux_users_email_sql [''users''] = False \<and>
   dump_indexes index_catalog ''public'' [''users''] = [] \<and>
   dump_indexes index_catalog ''public'' (resolve_tables index_catalog None ''public'') = []"
proof -
  have "idx_rows index_catalog ''public'' [''users''] = []"
    by (simp add: idx_rows_def index_catalog_query printed_definitions_not_matched)
  moreover have "idx_rows index_catalog ''public'' [''orders'', ''users''] = []"
    by (simp add: idx_rows_def index_catalog_query printed_definitions_not_matched)
  moreover have "resolve_tables index_catalog None ''public'' = [''orders'', ''users'']"
    by (simp add: resolve_tables_def index_catalog_def)
  ultimately show ?thesis
    by (simp add: dump_indexes_lines index_catalog_query printed_definitions_not_matched)
       (simp add: index_catalog_def)
qed

end
